theory Spec2Isabelle
  imports Main
begin

section \<open>Strings\<close>

text \<open>
  Strings are byte strings. \<open>str.upper\<close> is applied to the provider's country codes only
  and is modelled on the ASCII letters; every other byte is left as it is. \<open>str.lower\<close>
  is applied to the column names of any uploaded table and follows Unicode, so the
  definitions that use it take it as a parameter \<open>lower\<close> and what is proved of them
  holds for Python's function; \<open>ascii_lower\<close> is its value on ASCII strings, for the
  examples.
\<close>

definition upper_char :: "char \<Rightarrow> char" where
  "upper_char c =
     (let n = (of_char c :: nat) in if 97 \<le> n \<and> n \<le> 122 then char_of (n - 32) else c)"

definition lower_char :: "char \<Rightarrow> char" where
  "lower_char c =
     (let n = (of_char c :: nat) in if 65 \<le> n \<and> n \<le> 90 then char_of (n + 32) else c)"

definition upper :: "string \<Rightarrow> string" where
  "upper s = map upper_char s"

definition ascii_lower :: "string \<Rightarrow> string" where
  "ascii_lower s = map lower_char s"

text \<open>\<open>sep.join(xs)\<close>\<close>

fun join :: "string \<Rightarrow> string list \<Rightarrow> string" where
  "join sep [] = []"
| "join sep [x] = x"
| "join sep (x # y # ys) = x @ sep @ join sep (y # ys)"

section \<open>The data of \<open>geocoder.py\<close>\<close>

text \<open>
  The dictionary that \<open>reverse_geocode\<close> returns always has the same nine keys, so it is
  a record. The coordinate type \<open>'c\<close> stands for Python's \<open>float\<close>; Python's \<open>None\<close> is
  \<open>None\<close>.
\<close>

record 'c geocode_result =
  latitude :: 'c
  longitude :: 'c
  city :: "string option"
  state :: "string option"
  country :: "string option"
  country_code :: "string option"
  postcode :: "string option"
  display_name :: "string option"
  status :: string

text \<open>
  The provider's answer. \<open>session.get\<close> followed by \<open>raise_for_status\<close> and
  \<open>response.json()\<close> either raises a \<open>RequestException\<close> (carried here by its \<open>str\<close>)
  or gives the parsed JSON object: its \<open>address\<close> member, when present a dictionary from
  strings to strings, and its \<open>display_name\<close> member. This is the shape the provider
  documents; an answer of another shape (a JSON \<open>null\<close> under a key, an \<open>address\<close> that
  is not an object) is not an input of the model.
\<close>

type_synonym address = "string \<rightharpoonup> string"

datatype response =
  RequestException string
| Json (data_address: "address option") (data_display_name: "string option")

text \<open>
  What the program does to the outside world, in the order it does it: \<open>time.sleep(n)\<close>
  and the GET request for a coordinate.
\<close>

datatype 'c event = Sleep nat | HttpGet 'c 'c

text \<open>
  Results are Python dictionaries, which are mutable objects handed around by reference:
  the store maps a reference to the dictionary it holds, and \<open>next_ref\<close> is the first
  reference not yet allocated.
\<close>

type_synonym ref = nat

record 'c world =
  heap :: "ref \<Rightarrow> 'c geocode_result"
  next_ref :: ref
  trace :: "'c event list"

text \<open>
  The provider is any function of the request and of everything that happened before
  it.
\<close>

type_synonym 'c network = "'c event list \<Rightarrow> 'c \<Rightarrow> 'c \<Rightarrow> response"

text \<open>The fields of a \<open>ReverseGeocoder\<close> instance that the methods read and write.\<close>

record 'k geocoder =
  cache :: "'k \<times> 'k \<rightharpoonup> ref"
  cache_hits :: nat
  cache_misses :: nat

definition init_geocoder :: "'k geocoder" where
  "init_geocoder = \<lparr>cache = Map.empty, cache_hits = 0, cache_misses = 0\<rparr>"

subsection \<open>Operations on the store and the world\<close>

text \<open>A dictionary display \<open>{...}\<close> allocates a new object.\<close>

definition new_dict :: "'c geocode_result \<Rightarrow> 'c world \<Rightarrow> ref \<times> 'c world" where
  "new_dict d w =
     (next_ref w, w\<lparr>heap := (heap w)(next_ref w := d), next_ref := Suc (next_ref w)\<rparr>)"

text \<open>\<open>d.copy()\<close>: a new object with the same items.\<close>

definition dict_copy :: "ref \<Rightarrow> 'c world \<Rightarrow> ref \<times> 'c world" where
  "dict_copy r w = new_dict (heap w r) w"

text \<open>\<open>d[key] = value\<close> on the object behind a reference, as a record update.\<close>

definition dict_set ::
  "ref \<Rightarrow> ('c geocode_result \<Rightarrow> 'c geocode_result) \<Rightarrow> 'c world \<Rightarrow> 'c world" where
  "dict_set r upd w = w\<lparr>heap := (heap w)(r := upd (heap w r))\<rparr>"

definition sleep :: "nat \<Rightarrow> 'c world \<Rightarrow> 'c world" where
  "sleep n w = w\<lparr>trace := trace w @ [Sleep n]\<rparr>"

definition http_get :: "'c network \<Rightarrow> 'c \<Rightarrow> 'c \<Rightarrow> 'c world \<Rightarrow> response \<times> 'c world" where
  "http_get net lat lon w = (net (trace w) lat lon, w\<lparr>trace := trace w @ [HttpGet lat lon]\<rparr>)"

subsection \<open>\<open>_extract_city\<close>\<close>

definition city_fields :: "string list" where
  "city_fields = [''city'', ''town'', ''village'', ''municipality'', ''hamlet'']"

fun extract_city_loop :: "address \<Rightarrow> string list \<Rightarrow> string option" where
  "extract_city_loop address [] = None"
| "extract_city_loop address (field # rest) =
     (if address field \<noteq> None then address field else extract_city_loop address rest)"

definition extract_city :: "address \<Rightarrow> string option" where
  "extract_city address = extract_city_loop address city_fields"

subsection \<open>\<open>reverse_geocode\<close>\<close>

text \<open>\<open>str(last_error)\<close>, where \<open>last_error\<close> is \<open>None\<close> or a caught exception.\<close>

definition str_error :: "string option \<Rightarrow> string" where
  "str_error last_error = (case last_error of None \<Rightarrow> ''None'' | Some e \<Rightarrow> e)"

text \<open>The dictionary built from a response that did not raise.\<close>

definition success_result :: "'c \<Rightarrow> 'c \<Rightarrow> response \<Rightarrow> 'c geocode_result" where
  "success_result lat lon data =
     (let address = (case data_address data of None \<Rightarrow> Map.empty | Some a \<Rightarrow> a) in
      \<lparr>latitude = lat,
       longitude = lon,
       city = extract_city address,
       state = address ''state'',
       country = address ''country'',
       country_code =
         Some (upper (case address ''country_code'' of None \<Rightarrow> [] | Some cc \<Rightarrow> cc)),
       postcode = address ''postcode'',
       display_name = data_display_name data,
       status = ''success''\<rparr>)"

definition error_result :: "'c \<Rightarrow> 'c \<Rightarrow> string option \<Rightarrow> 'c geocode_result" where
  "error_result lat lon last_error =
     \<lparr>latitude = lat,
      longitude = lon,
      city = None,
      state = None,
      country = None,
      country_code = None,
      postcode = None,
      display_name = None,
      status = ''error: '' @ str_error last_error\<rparr>"

text \<open>
  A world in which nothing has happened and no dictionary is allocated yet. The cells of
  the store that are not allocated hold some dictionary; \<open>z\<close> fills its coordinates.
\<close>

definition fresh_world :: "'c \<Rightarrow> 'c world" where
  "fresh_world z = \<lparr>heap = (\<lambda>_. error_result z z None), next_ref = 0, trace = []\<rparr>"

text \<open>
  The loop \<open>for attempt in range(max_retries)\<close>, over the attempts still to come. It
  ends with \<open>Inr\<close> of the reference returned from inside the loop, or with \<open>Inl\<close> of
  \<open>last_error\<close> when the attempts are used up.
\<close>

fun retry_loop ::
  "('c \<Rightarrow> 'k) \<Rightarrow> 'c network \<Rightarrow> 'c \<Rightarrow> 'c \<Rightarrow> int \<Rightarrow> nat list \<Rightarrow> string option \<Rightarrow>
     'k geocoder \<times> 'c world \<Rightarrow> (string option + ref) \<times> 'k geocoder \<times> 'c world" where
  "retry_loop rnd net lat lon max_retries [] last_error (g, w) = (Inl last_error, g, w)"
| "retry_loop rnd net lat lon max_retries (attempt # rest) last_error (g, w) =
     (case http_get net lat lon (sleep 1 w) of
        (RequestException e, w2) \<Rightarrow>
          retry_loop rnd net lat lon max_retries rest (Some e)
            (g, if int attempt < max_retries - 1 then sleep (2 ^ (attempt + 1)) w2 else w2)
      | (Json a d, w2) \<Rightarrow>
          (case new_dict (success_result lat lon (Json a d)) w2 of
             (result, w3) \<Rightarrow>
               (case dict_copy result w3 of
                  (c, w4) \<Rightarrow>
                    (Inr result, g\<lparr>cache := (cache g)((rnd lat, rnd lon) \<mapsto> c)\<rparr>, w4))))"

text \<open>
  \<open>rnd\<close> is \<open>round(\<cdot>, 4)\<close>. A call takes the instance and the world and gives the
  reference to the returned dictionary with the instance and the world after the call.
\<close>

definition reverse_geocode ::
  "('c \<Rightarrow> 'k) \<Rightarrow> 'c network \<Rightarrow> 'c \<Rightarrow> 'c \<Rightarrow> int \<Rightarrow>
     'k geocoder \<times> 'c world \<Rightarrow> ref \<times> 'k geocoder \<times> 'c world" where
  "reverse_geocode rnd net lat lon max_retries gw =
     (case gw of (g, w) \<Rightarrow>
        (case cache g (rnd lat, rnd lon) of
           Some template \<Rightarrow>
             (case dict_copy template w of
                (cached_result, w1) \<Rightarrow>
                  (cached_result,
                   g\<lparr>cache_hits := cache_hits g + 1\<rparr>,
                   dict_set cached_result (longitude_update (\<lambda>_. lon))
                     (dict_set cached_result (latitude_update (\<lambda>_. lat)) w1)))
         | None \<Rightarrow>
             (case retry_loop rnd net lat lon max_retries [0..<nat max_retries] None
                     (g\<lparr>cache_misses := cache_misses g + 1\<rparr>, w) of
                (Inr result, g', w') \<Rightarrow> (result, g', w')
              | (Inl last_error, g', w') \<Rightarrow>
                  (case new_dict (error_result lat lon last_error) w' of
                     (r, w'') \<Rightarrow> (r, g', w'')))))"

subsection \<open>\<open>get_cache_stats\<close> and \<open>clear_cache\<close>\<close>

record cache_stats =
  hits :: nat
  misses :: nat
  size_of_cache :: nat
  total_requests :: nat

definition get_cache_stats :: "'k geocoder \<Rightarrow> cache_stats \<times> 'k geocoder" where
  "get_cache_stats g =
     (\<lparr>hits = cache_hits g,
       misses = cache_misses g,
       size_of_cache = card (dom (cache g)),
       total_requests = cache_hits g + cache_misses g\<rparr>, g)"

definition clear_cache :: "'k geocoder \<Rightarrow> 'k geocoder" where
  "clear_cache g = g\<lparr>cache := Map.empty, cache_hits := 0, cache_misses := 0\<rparr>"

section \<open>Tables\<close>

text \<open>
  A pandas \<open>DataFrame\<close> with the default index \<open>0, 1, 2, \<dots>\<close>: its column labels and
  its rows in order. A row of the table read from the CSV file maps a column label to the
  cell under it, and \<open>row[label]\<close> raises \<open>KeyError\<close> for a label the row does not have.
\<close>

record 'a frame =
  columns :: "string list"
  rows :: "'a list"

datatype error = KeyError "string list" | ValueError string

type_synonym 'c row = "string \<rightharpoonup> 'c"

definition row_get :: "'c row \<Rightarrow> string \<Rightarrow> error + 'c" where
  "row_get row label = (case row label of None \<Rightarrow> Inl (KeyError [label]) | Some v \<Rightarrow> Inr v)"

text \<open>
  \<open>pd.DataFrame(results)\<close> for a list of result dictionaries reads the dictionaries as
  they are at that moment. The columns are the dictionaries' keys; for the empty list
  the frame has no columns at all.
\<close>

definition result_keys :: "string list" where
  "result_keys = [''latitude'', ''longitude'', ''city'', ''state'', ''country'',
     ''country_code'', ''postcode'', ''display_name'', ''status'']"

definition DataFrame :: "ref list \<Rightarrow> 'c world \<Rightarrow> 'c geocode_result frame" where
  "DataFrame results w =
     \<lparr>columns = (if results = [] then [] else result_keys), rows = map (heap w) results\<rparr>"

text \<open>
  \<open>.drop(['latitude', 'longitude'], axis=1)\<close> raises \<open>KeyError\<close> when a label is not a
  column of the frame. What is left of a result row are the cells of the seven other
  columns, in the columns' order.
\<close>

definition place_cells :: "'c geocode_result \<Rightarrow> string option list" where
  "place_cells r =
     [city r, state r, country r, country_code r, postcode r, display_name r, Some (status r)]"

definition drop_lat_lon :: "'c geocode_result frame \<Rightarrow> error + string option list frame" where
  "drop_lat_lon df =
     (let missing = filter (\<lambda>l. l \<notin> set (columns df)) [''latitude'', ''longitude''] in
      if missing \<noteq> [] then Inl (KeyError missing)
      else Inr \<lparr>columns = filter (\<lambda>c. c \<notin> set [''latitude'', ''longitude'']) (columns df),
                rows = map place_cells (rows df)\<rparr>)"

text \<open>
  \<open>pd.concat([a, b], axis=1)\<close> puts the rows with the same index side by side; where
  one frame is shorter the missing side is empty.
\<close>

fun side_by_side :: "'a list \<Rightarrow> 'b list \<Rightarrow> ('a option \<times> 'b option) list" where
  "side_by_side [] [] = []"
| "side_by_side (x # xs) [] = (Some x, None) # side_by_side xs []"
| "side_by_side [] (y # ys) = (None, Some y) # side_by_side [] ys"
| "side_by_side (x # xs) (y # ys) = (Some x, Some y) # side_by_side xs ys"

definition concat_axis1 :: "'a frame \<Rightarrow> 'b frame \<Rightarrow> ('a option \<times> 'b option) frame" where
  "concat_axis1 a b = \<lparr>columns = columns a @ columns b, rows = side_by_side (rows a) (rows b)\<rparr>"

text \<open>\<open>df.iloc[:n]\<close>\<close>

definition iloc_upto :: "nat \<Rightarrow> 'a frame \<Rightarrow> 'a frame" where
  "iloc_upto n df = df\<lparr>rows := take n (rows df)\<rparr>"

type_synonym 'c output_table = "('c row option \<times> string option list option) frame"

section \<open>\<open>process_csv\<close>\<close>

definition quoted :: "string \<Rightarrow> string" where
  "quoted s = [CHR 0x27] @ s @ [CHR 0x27]"

text \<open>
  The loop over \<open>df.iterrows()\<close>. The columns were checked before the loop;
  \<open>reverse_geocode\<close> is called with its default \<open>max_retries = 3\<close>.
\<close>

fun process_csv_loop ::
  "('c \<Rightarrow> 'k) \<Rightarrow> 'c network \<Rightarrow> string \<Rightarrow> string \<Rightarrow> 'c row list \<Rightarrow>
     (ref list \<times> nat) \<times> 'k geocoder \<times> 'c world \<Rightarrow>
     (error + ref list \<times> nat) \<times> 'k geocoder \<times> 'c world" where
  "process_csv_loop rnd net lat_column lon_column [] (acc, g, w) = (Inr acc, g, w)"
| "process_csv_loop rnd net lat_column lon_column (row # rest) ((results, successful_count), g, w) =
     (case row_get row lat_column of
        Inl e \<Rightarrow> (Inl e, g, w)
      | Inr lat \<Rightarrow>
          (case row_get row lon_column of
             Inl e \<Rightarrow> (Inl e, g, w)
           | Inr lon \<Rightarrow>
               (case reverse_geocode rnd net lat lon 3 (g, w) of
                  (result, g', w') \<Rightarrow>
                    process_csv_loop rnd net lat_column lon_column rest
                      ((results @ [result],
                        if status (heap w' result) = ''success'' then successful_count + 1
                        else successful_count), g', w'))))"

text \<open>
  \<open>df\<close> is what \<open>pd.read_csv(input_file)\<close> gave. The call returns the raised exception,
  or the pair of counts together with the table written to \<open>output_file\<close>.
\<close>

definition process_csv ::
  "('c \<Rightarrow> 'k) \<Rightarrow> 'c network \<Rightarrow> 'c row frame \<Rightarrow> string \<Rightarrow> string \<Rightarrow>
     'k geocoder \<times> 'c world \<Rightarrow>
     (error + (nat \<times> nat) \<times> 'c output_table) \<times> 'k geocoder \<times> 'c world" where
  "process_csv rnd net df lat_column lon_column gw =
     (case gw of (g, w) \<Rightarrow>
        if lat_column \<notin> set (columns df) \<or> lon_column \<notin> set (columns df) then
          (Inl (ValueError (''Columns '' @ quoted lat_column @ '' and/or '' @ quoted lon_column
                  @ '' not found in CSV'')), g, w)
        else
          (case process_csv_loop rnd net lat_column lon_column (rows df) (([], 0), g, w) of
             (Inl e, g', w') \<Rightarrow> (Inl e, g', w')
           | (Inr (results, successful_count), g', w') \<Rightarrow>
               (case drop_lat_lon (DataFrame results w') of
                  Inl e \<Rightarrow> (Inl e, g', w')
                | Inr dropped \<Rightarrow>
                    (Inr ((successful_count, length (rows df)), concat_axis1 df dropped),
                     g', w'))))"

section \<open>\<open>app.py\<close>\<close>

subsection \<open>\<open>process_geocoding\<close>\<close>

text \<open>
  The local variables of the batch loop, with the content of the file at \<open>output_path\<close>
  (\<open>None\<close> while it is still the empty temporary file; \<open>to_csv\<close> replaces the content)
  and the row counts at which the loop saved. The progress bar, the status line and the
  estimate of the remaining time only display these values and are left out.
\<close>

record 'c batch =
  results :: "ref list"
  processed :: nat
  output_file :: "'c output_table option"
  saved_at :: "nat list"

definition batch_save_interval :: nat where
  "batch_save_interval = 50"

definition start_batch :: "'c batch" where
  "start_batch = \<lparr>results = [], processed = 0, output_file = None, saved_at = []\<rparr>"

text \<open>The body of the loop for one row.\<close>

definition geocoding_step ::
  "('c \<Rightarrow> 'k) \<Rightarrow> 'c network \<Rightarrow> 'c row frame \<Rightarrow> string \<Rightarrow> string \<Rightarrow> nat \<Rightarrow> 'c row \<Rightarrow>
     'c batch \<times> 'k geocoder \<times> 'c world \<Rightarrow> (error + 'c batch) \<times> 'k geocoder \<times> 'c world" where
  "geocoding_step rnd net df lat_column lon_column total_rows row bgw =
     (case bgw of (b, g, w) \<Rightarrow>
        (case row_get row lat_column of
           Inl e \<Rightarrow> (Inl e, g, w)
         | Inr lat \<Rightarrow>
             (case row_get row lon_column of
                Inl e \<Rightarrow> (Inl e, g, w)
              | Inr lon \<Rightarrow>
                  (case reverse_geocode rnd net lat lon 3 (g, w) of
                     (result, g', w') \<Rightarrow>
                       (let b1 = b\<lparr>results := results b @ [result],
                                   processed := processed b + 1\<rparr> in
                        if processed b1 mod batch_save_interval = 0 \<or> processed b1 = total_rows
                        then
                          (case drop_lat_lon (DataFrame (results b1) w') of
                             Inl e \<Rightarrow> (Inl e, g', w')
                           | Inr dropped \<Rightarrow>
                               (Inr (b1\<lparr>output_file :=
                                          Some (concat_axis1 (iloc_upto (processed b1) df) dropped),
                                        saved_at := saved_at b1 @ [processed b1]\<rparr>), g', w'))
                        else (Inr b1, g', w'))))))"

fun geocoding_loop ::
  "('c \<Rightarrow> 'k) \<Rightarrow> 'c network \<Rightarrow> 'c row frame \<Rightarrow> string \<Rightarrow> string \<Rightarrow> nat \<Rightarrow> 'c row list \<Rightarrow>
     'c batch \<times> 'k geocoder \<times> 'c world \<Rightarrow> (error + 'c batch) \<times> 'k geocoder \<times> 'c world" where
  "geocoding_loop rnd net df lat_column lon_column total_rows [] (b, g, w) = (Inr b, g, w)"
| "geocoding_loop rnd net df lat_column lon_column total_rows (row # rest) (b, g, w) =
     (case geocoding_step rnd net df lat_column lon_column total_rows row (b, g, w) of
        (Inl e, g', w') \<Rightarrow> (Inl e, g', w')
      | (Inr b', g', w') \<Rightarrow>
          geocoding_loop rnd net df lat_column lon_column total_rows rest (b', g', w'))"

text \<open>
  What a finished run shows: the final table (written to \<open>output_path\<close> and displayed),
  the number of successful rows and the cache hits. An exception anywhere in the run is
  caught by the enclosing \<open>except Exception\<close> and reported instead.
\<close>

record 'c report =
  output_df :: "'c output_table"
  successful :: nat
  total :: nat
  hits_saved :: nat

definition process_geocoding ::
  "('c \<Rightarrow> 'k) \<Rightarrow> 'c network \<Rightarrow> 'c row frame \<Rightarrow> string \<Rightarrow> string \<Rightarrow> 'c world \<Rightarrow>
     (error + 'c report) \<times> 'c world" where
  "process_geocoding rnd net df lat_column lon_column w =
     (case geocoding_loop rnd net df lat_column lon_column (length (rows df)) (rows df)
             (start_batch, init_geocoder, w) of
        (Inl e, g, w') \<Rightarrow> (Inl e, w')
      | (Inr b, g, w') \<Rightarrow>
          (case drop_lat_lon (DataFrame (results b) w') of
             Inl e \<Rightarrow> (Inl e, w')
           | Inr dropped \<Rightarrow>
               (Inr \<lparr>output_df = concat_axis1 df dropped,
                     successful = length (filter (\<lambda>r. status (heap w' r) = ''success'') (results b)),
                     total = length (rows df),
                     hits_saved = cache_hits g\<rparr>, w')))"

subsection \<open>\<open>main\<close>\<close>

text \<open>
  The dictionary comprehension \<open>{col.lower(): col for col in df.columns}\<close>, with
  \<open>str.lower\<close> as the parameter \<open>lower\<close>.
\<close>

definition column_map :: "(string \<Rightarrow> string) \<Rightarrow> string list \<Rightarrow> (string \<rightharpoonup> string)" where
  "column_map lower cols = foldl (\<lambda>m col. m(lower col \<mapsto> col)) Map.empty cols"

text \<open>
  What \<open>main\<close> does with an uploaded table \<open>df\<close>, the two column names of the sidebar
  and the state of the start button: it reports that the columns were not found, with
  the line that lists the available columns, and returns; or it shows the columns found
  and, when the button was pressed, runs \<open>process_geocoding\<close>.
\<close>

datatype 'c page =
  ColumnsNotFound string string string
| ColumnsFound string string
| Geocoded string string "error + 'c report"

definition main ::
  "(string \<Rightarrow> string) \<Rightarrow> ('c \<Rightarrow> 'k) \<Rightarrow> 'c network \<Rightarrow> 'c row frame \<Rightarrow> string \<Rightarrow> string \<Rightarrow>
     bool \<Rightarrow> 'c world \<Rightarrow> 'c page \<times> 'c world" where
  "main lower rnd net df lat_column lon_column button w =
     (case (column_map lower (columns df) (lower lat_column),
            column_map lower (columns df) (lower lon_column)) of
        (Some actual_lat_column, Some actual_lon_column) \<Rightarrow>
          if button then
            (case process_geocoding rnd net df actual_lat_column actual_lon_column w of
               (r, w') \<Rightarrow> (Geocoded actual_lat_column actual_lon_column r, w'))
          else (ColumnsFound actual_lat_column actual_lon_column, w)
      | _ \<Rightarrow>
          (ColumnsNotFound lat_column lon_column
             (''Available columns: '' @ join '', '' (columns df)), w))"

section \<open>The invariant of the cache and the specified table\<close>

text \<open>
  Every dictionary the cache refers to is allocated and has the status \<open>success\<close>.
\<close>

definition cache_inv :: "'k geocoder \<Rightarrow> 'c world \<Rightarrow> bool" where
  "cache_inv g w \<longleftrightarrow>
     (\<forall>k t. cache g k = Some t \<longrightarrow> t < next_ref w \<and> status (heap w t) = ''success'')"

text \<open>
  The references of \<open>H\<close> (the results handed out to callers) are allocated and none of
  them is a dictionary the cache refers to.
\<close>

definition separate :: "'k geocoder \<Rightarrow> 'c world \<Rightarrow> ref set \<Rightarrow> bool" where
  "separate g w H \<longleftrightarrow> (\<forall>a\<in>H. a < next_ref w \<and> (\<forall>k. cache g k \<noteq> Some a))"

text \<open>
  The table the specification describes for the first \<open>q\<close> rows: each of the first \<open>q\<close>
  input rows next to the place fields of its result, in the order of the input, under the
  input's columns followed by the seven result columns.
\<close>

definition joined :: "'c row frame \<Rightarrow> 'c geocode_result list \<Rightarrow> nat \<Rightarrow> 'c output_table" where
  "joined df rs q =
     \<lparr>columns = columns df @ [''city'', ''state'', ''country'', ''country_code'', ''postcode'',
                               ''display_name'', ''status''],
      rows = zip (map Some (take q (rows df))) (map (\<lambda>r. Some (place_cells r)) (take q rs))\<rparr>"

section \<open>Clients\<close>

text \<open>
  What the owner of an instance can do with it, one step at a time: call one of its four
  methods, or change a dictionary it holds. The only dictionaries of the program a client
  holds are the results \<open>reverse_geocode\<close> returned to it, so \<open>Update\<close> is for one of
  those; \<open>process_csv\<close> returns counts and keeps its results to itself.
\<close>

datatype 'c client_op =
  ReverseGeocode 'c 'c int
| GetCacheStats
| ClearCache
| ProcessCsv "'c row frame" string string
| Update ref "'c geocode_result \<Rightarrow> 'c geocode_result"

text \<open>
  The state of a client's session: the instance, the world and the results handed out
  so far, the latest first.
\<close>

fun client_step ::
  "('c \<Rightarrow> 'k) \<Rightarrow> 'c network \<Rightarrow> 'c client_op \<Rightarrow> 'k geocoder \<times> 'c world \<times> ref list \<Rightarrow>
     'k geocoder \<times> 'c world \<times> ref list" where
  "client_step rnd net (ReverseGeocode lat lon max_retries) (g, w, held) =
     (case reverse_geocode rnd net lat lon max_retries (g, w) of
        (r, g', w') \<Rightarrow> (g', w', r # held))"
| "client_step rnd net GetCacheStats (g, w, held) = (snd (get_cache_stats g), w, held)"
| "client_step rnd net ClearCache (g, w, held) = (clear_cache g, w, held)"
| "client_step rnd net (ProcessCsv df lat_column lon_column) (g, w, held) =
     (case process_csv rnd net df lat_column lon_column (g, w) of
        (res, g', w') \<Rightarrow> (g', w', held))"
| "client_step rnd net (Update a upd) (g, w, held) =
     (if a \<in> set held then (g, dict_set a upd w, held) else (g, w, held))"

fun session ::
  "('c \<Rightarrow> 'k) \<Rightarrow> 'c network \<Rightarrow> 'c client_op list \<Rightarrow> 'k geocoder \<times> 'c world \<times> ref list \<Rightarrow>
     'k geocoder \<times> 'c world \<times> ref list" where
  "session rnd net [] s = s"
| "session rnd net (step # steps) s = session rnd net steps (client_step rnd net step s)"

section \<open>What a call of \<open>reverse_geocode\<close> does\<close>

text \<open>A failed attempt leaves the store alone and goes on with the remaining attempts.\<close>

lemma status_success_result: "status (success_result lat lon data) = ''success''"
  by (simp add: success_result_def Let_def)

lemma success_result_fields:
  "city (success_result lat lon (Json a d)) =
     extract_city (case a of None \<Rightarrow> Map.empty | Some x \<Rightarrow> x)"
  "state (success_result lat lon (Json a d)) =
     (case a of None \<Rightarrow> Map.empty | Some x \<Rightarrow> x) ''state''"
  "country (success_result lat lon (Json a d)) =
     (case a of None \<Rightarrow> Map.empty | Some x \<Rightarrow> x) ''country''"
  "postcode (success_result lat lon (Json a d)) =
     (case a of None \<Rightarrow> Map.empty | Some x \<Rightarrow> x) ''postcode''"
  "display_name (success_result lat lon (Json a d)) = d"
  "country_code (success_result lat lon (Json a d)) =
     (case (case a of None \<Rightarrow> Map.empty | Some x \<Rightarrow> x) ''country_code'' of
        None \<Rightarrow> Some [] | Some cc \<Rightarrow> Some (upper cc))"
  by (simp_all add: success_result_def Let_def upper_def split: option.splits)

lemma retry_loop_failed_step:
  assumes "net (trace w @ [Sleep 1]) lat lon = RequestException e"
  shows "\<exists>w3. retry_loop rnd net lat lon n (x # xs) le (g, w) =
                retry_loop rnd net lat lon n xs (Some e) (g, w3) \<and>
              heap w3 = heap w \<and> next_ref w3 = next_ref w \<and>
              (\<exists>evs. trace w3 = trace w @ Sleep 1 # HttpGet lat lon # evs)"
proof -
  let ?w2 = "w\<lparr>trace := trace w @ [Sleep 1, HttpGet lat lon]\<rparr>"
  let ?w3 = "if int x < n - 1 then sleep (2 ^ (x + 1)) ?w2 else ?w2"
  have "retry_loop rnd net lat lon n (x # xs) le (g, w) =
          retry_loop rnd net lat lon n xs (Some e) (g, ?w3)"
    using assms by (simp add: http_get_def sleep_def)
  moreover have "heap ?w3 = heap w" "next_ref ?w3 = next_ref w"
    by (simp_all add: sleep_def)
  moreover have "\<exists>evs. trace ?w3 = trace w @ Sleep 1 # HttpGet lat lon # evs"
    by (simp add: sleep_def)
  ultimately show ?thesis by blast
qed

lemma retry_loop_Inl:
  "retry_loop rnd net lat lon n xs le (g, w) = (Inl le', g', w') \<Longrightarrow>
     g' = g \<and> heap w' = heap w \<and> next_ref w' = next_ref w"
proof (induction xs arbitrary: le w)
  case Nil
  then show ?case by simp
next
  case (Cons x xs)
  show ?case
  proof (cases "net (trace w @ [Sleep 1]) lat lon")
    case (RequestException e)
    from retry_loop_failed_step [where net=net and w=w and lat=lat and lon=lon and e=e and rnd=rnd and n=n and x=x and xs=xs and le=le and g=g, OF this] Cons.prems
    obtain w3 where "retry_loop rnd net lat lon n xs (Some e) (g, w3) = (Inl le', g', w')"
      and "heap w3 = heap w" "next_ref w3 = next_ref w"
      by auto
    with Cons.IH [of "Some e" w3] show ?thesis by simp
  next
    case (Json a d)
    with Cons.prems show ?thesis
      by (simp add: http_get_def sleep_def new_dict_def dict_copy_def)
  qed
qed

lemma retry_loop_Inr:
  "retry_loop rnd net lat lon n xs le (g, w) = (Inr r, g', w') \<Longrightarrow>
     \<exists>a d tr. net tr lat lon = Json a d \<and>
       r = next_ref w \<and>
       next_ref w' = Suc (Suc (next_ref w)) \<and>
       heap w' = (heap w)(next_ref w := success_result lat lon (Json a d),
                          Suc (next_ref w) := success_result lat lon (Json a d)) \<and>
       g' = g\<lparr>cache := (cache g)((rnd lat, rnd lon) \<mapsto> Suc (next_ref w))\<rparr>"
proof (induction xs arbitrary: le w)
  case Nil
  then show ?case by simp
next
  case (Cons x xs)
  show ?case
  proof (cases "net (trace w @ [Sleep 1]) lat lon")
    case (RequestException e)
    from retry_loop_failed_step [where net=net and w=w and lat=lat and lon=lon and e=e and rnd=rnd and n=n and x=x and xs=xs and le=le and g=g, OF this] Cons.prems
    obtain w3 where "retry_loop rnd net lat lon n xs (Some e) (g, w3) = (Inr r, g', w')"
      and "heap w3 = heap w" "next_ref w3 = next_ref w"
      by auto
    with Cons.IH [of "Some e" w3] show ?thesis by simp
  next
    case (Json a d)
    with Cons.prems have
      "r = next_ref w \<and> next_ref w' = Suc (Suc (next_ref w)) \<and>
       heap w' = (heap w)(next_ref w := success_result lat lon (Json a d),
                          Suc (next_ref w) := success_result lat lon (Json a d)) \<and>
       g' = g\<lparr>cache := (cache g)((rnd lat, rnd lon) \<mapsto> Suc (next_ref w))\<rparr>"
      by (auto simp add: http_get_def sleep_def new_dict_def dict_copy_def)
    with Json show ?thesis by blast
  qed
qed

lemma retry_loop_trace:
  "retry_loop rnd net lat lon n xs le (g, w) = (res, g', w') \<Longrightarrow>
     \<exists>evs. trace w' = trace w @ evs \<and> (xs = [] \<or> take 2 evs = [Sleep 1, HttpGet lat lon])"
proof (induction xs arbitrary: le w)
  case Nil
  then show ?case by simp
next
  case (Cons x xs)
  show ?case
  proof (cases "net (trace w @ [Sleep 1]) lat lon")
    case (RequestException e)
    from retry_loop_failed_step [where net=net and w=w and lat=lat and lon=lon and e=e and rnd=rnd and n=n and x=x and xs=xs and le=le and g=g, OF this] Cons.prems
    obtain w3 evs where "retry_loop rnd net lat lon n xs (Some e) (g, w3) = (res, g', w')"
      and "trace w3 = trace w @ Sleep 1 # HttpGet lat lon # evs"
      by auto
    with Cons.IH [of "Some e" w3] show ?thesis by auto
  next
    case (Json a d)
    with Cons.prems show ?thesis
      by (auto simp add: http_get_def sleep_def new_dict_def dict_copy_def)
  qed
qed

lemma reverse_geocode_hit:
  "cache g (rnd lat, rnd lon) = Some t \<Longrightarrow>
   reverse_geocode rnd net lat lon n (g, w) =
     (next_ref w, g\<lparr>cache_hits := cache_hits g + 1\<rparr>,
      w\<lparr>heap := (heap w)(next_ref w := (heap w t)\<lparr>latitude := lat, longitude := lon\<rparr>),
        next_ref := Suc (next_ref w)\<rparr>)"
  by (simp add: reverse_geocode_def dict_copy_def new_dict_def dict_set_def)


lemma reverse_geocode_cases:
  assumes "reverse_geocode rnd net lat lon n (g, w) = (r, g', w')"
  shows "r = next_ref w \<and>
    ((\<exists>t. cache g (rnd lat, rnd lon) = Some t \<and>
          g' = g\<lparr>cache_hits := cache_hits g + 1\<rparr> \<and>
          heap w' = (heap w)(r := (heap w t)\<lparr>latitude := lat, longitude := lon\<rparr>) \<and>
          next_ref w' = Suc r \<and> trace w' = trace w)
     \<or> (cache g (rnd lat, rnd lon) = None \<and>
          (\<exists>a d tr. net tr lat lon = Json a d \<and>
             heap w' = (heap w)(r := success_result lat lon (Json a d),
                                Suc r := success_result lat lon (Json a d))) \<and>
          next_ref w' = Suc (Suc r) \<and>
          g' = g\<lparr>cache_misses := cache_misses g + 1,
                  cache := (cache g)((rnd lat, rnd lon) \<mapsto> Suc r)\<rparr>)
     \<or> (cache g (rnd lat, rnd lon) = None \<and>
          (\<exists>le. heap w' = (heap w)(r := error_result lat lon le)) \<and>
          next_ref w' = Suc r \<and>
          g' = g\<lparr>cache_misses := cache_misses g + 1\<rparr>))"
proof (cases "cache g (rnd lat, rnd lon)")
  case (Some t)
  with assms show ?thesis
    by (auto simp add: reverse_geocode_hit)
next
  case None
  obtain res g1 w1 where loop:
    "retry_loop rnd net lat lon n [0..<nat n] None (g\<lparr>cache_misses := cache_misses g + 1\<rparr>, w)
       = (res, g1, w1)"
    by (cases "retry_loop rnd net lat lon n [0..<nat n] None
                 (g\<lparr>cache_misses := cache_misses g + 1\<rparr>, w)") auto
  show ?thesis
  proof (cases res)
    case (Inl le)
    from loop [unfolded Inl] have "g1 = g\<lparr>cache_misses := cache_misses g + 1\<rparr>"
      "heap w1 = heap w" "next_ref w1 = next_ref w"
      by (auto dest: retry_loop_Inl)
    with assms None loop Inl show ?thesis
      by (auto simp add: reverse_geocode_def new_dict_def)
  next
    case (Inr r1)
    from retry_loop_Inr [OF loop [unfolded Inr]] assms None loop Inr show ?thesis
      by (auto simp add: reverse_geocode_def)
  qed
qed


lemma reverse_geocode_miss_trace:
  assumes "cache g (rnd lat, rnd lon) = None"
    and "reverse_geocode rnd net lat lon n (g, w) = (r, g', w')"
  shows "\<exists>evs. trace w' = trace w @ evs \<and> (n \<le> 0 \<or> take 2 evs = [Sleep 1, HttpGet lat lon])"
proof -
  obtain res g1 w1 where loop:
    "retry_loop rnd net lat lon n [0..<nat n] None (g\<lparr>cache_misses := cache_misses g + 1\<rparr>, w)
       = (res, g1, w1)"
    by (cases "retry_loop rnd net lat lon n [0..<nat n] None
                 (g\<lparr>cache_misses := cache_misses g + 1\<rparr>, w)") auto
  from retry_loop_trace [OF loop] obtain evs where
    evs: "trace w1 = trace w @ evs" "[0..<nat n] = [] \<or> take 2 evs = [Sleep 1, HttpGet lat lon]"
    by blast
  from assms loop have "trace w' = trace w1"
    by (cases res) (auto simp add: reverse_geocode_def new_dict_def)
  with evs show ?thesis by auto
qed

lemma reverse_geocode_success:
  assumes "cache g (rnd lat, rnd lon) = None"
    and "reverse_geocode rnd net lat lon n (g, w) = (r, g', w')"
    and "status (heap w' r) = ''success''"
  shows "\<exists>a d tr. net tr lat lon = Json a d \<and> heap w' r = success_result lat lon (Json a d)"
proof -
  from reverse_geocode_cases [OF assms(2)] assms(1)
  consider (ok) a d tr where "net tr lat lon = Json a d"
      "heap w' = (heap w)(r := success_result lat lon (Json a d),
                          Suc r := success_result lat lon (Json a d))"
    | (err) le where "heap w' = (heap w)(r := error_result lat lon le)"
    by auto
  then show ?thesis
  proof cases
    case ok
    then have "heap w' r = success_result lat lon (Json a d)" by simp
    with ok(1) show ?thesis by blast
  next
    case err
    then have "status (heap w' r) = ''error: '' @ str_error le"
      by (simp add: error_result_def)
    with assms(3) show ?thesis by simp
  qed
qed

lemma reverse_geocode_frame:
  assumes "reverse_geocode rnd net lat lon n (g, w) = (r, g', w')"
  shows "r = next_ref w \<and> next_ref w < next_ref w' \<and> (\<forall>a<next_ref w. heap w' a = heap w a)
    \<and> latitude (heap w' r) = lat \<and> longitude (heap w' r) = lon"
  using reverse_geocode_cases [OF assms]
  by (elim conjE disjE exE) (simp_all add: success_result_def error_result_def Let_def)

lemma reverse_geocode_inv:
  assumes "reverse_geocode rnd net lat lon n (g, w) = (r, g', w')"
    and "cache_inv g w" and "separate g w H"
  shows "cache_inv g' w' \<and> separate g' w' (insert r H)"
proof -
  from reverse_geocode_cases [OF assms(1)]
  have r: "r = next_ref w" by simp
  from reverse_geocode_cases [OF assms(1)]
  consider (hit) t where "cache g (rnd lat, rnd lon) = Some t"
      "g' = g\<lparr>cache_hits := cache_hits g + 1\<rparr>"
      "heap w' = (heap w)(r := (heap w t)\<lparr>latitude := lat, longitude := lon\<rparr>)"
      "next_ref w' = Suc r"
    | (ok) a d where
      "heap w' = (heap w)(r := success_result lat lon (Json a d),
                          Suc r := success_result lat lon (Json a d))"
      "next_ref w' = Suc (Suc r)"
      "g' = g\<lparr>cache_misses := cache_misses g + 1,
              cache := (cache g)((rnd lat, rnd lon) \<mapsto> Suc r)\<rparr>"
    | (err) le where "heap w' = (heap w)(r := error_result lat lon le)"
      "next_ref w' = Suc r" "g' = g\<lparr>cache_misses := cache_misses g + 1\<rparr>"
    by blast
  note cases = this
  have c: "t < r \<and> status (heap w t) = ''success''" if "cache g k = Some t" for k t
    using assms(2) r that unfolding cache_inv_def by blast
  have h: "cache g k \<noteq> Some a" if "a \<in> H" for a k
    using assms(3) r that unfolding separate_def by blast
  have lt: "a < r" if "a \<in> H" for a
    using assms(3) r that unfolding separate_def by blast
  have fresh: "cache g k \<noteq> Some r" for k
    using c [of k r] by auto
  from cases show ?thesis
  proof cases
    case hit
    have "cache_inv g' w'"
      unfolding cache_inv_def using hit c by (auto simp add: less_Suc_eq)
    moreover have "separate g' w' (insert r H)"
      unfolding separate_def using hit h fresh by (auto simp add: less_Suc_eq dest: lt)
    ultimately show ?thesis by simp
  next
    case ok
    have "cache_inv g' w'"
      unfolding cache_inv_def using ok c
      by (auto simp add: less_Suc_eq status_success_result)
    moreover have "separate g' w' (insert r H)"
      unfolding separate_def using ok h fresh by (auto simp add: less_Suc_eq dest: lt)
    ultimately show ?thesis by simp
  next
    case err
    have "cache_inv g' w'"
      unfolding cache_inv_def using err c by (auto simp add: less_Suc_eq)
    moreover have "separate g' w' (insert r H)"
      unfolding separate_def using err h fresh by (auto simp add: less_Suc_eq dest: lt)
    ultimately show ?thesis by simp
  qed
qed

lemma separate_mono: "separate g w H \<Longrightarrow> H' \<subseteq> H \<Longrightarrow> separate g w H'"
  by (auto simp add: separate_def)

lemma process_csv_loop_inv:
  "process_csv_loop rnd net latc lonc rs (acc, g, w) = (res, g', w') \<Longrightarrow>
   cache_inv g w \<Longrightarrow> separate g w H \<Longrightarrow> cache_inv g' w' \<and> separate g' w' H"
proof (induction rs arbitrary: acc g w)
  case Nil
  then show ?case by simp
next
  case (Cons row rs)
  obtain results cnt where acc: "acc = (results, cnt)" by (cases acc)
  show ?case
  proof (cases "row_get row latc")
    case (Inl e)
    with Cons.prems acc show ?thesis by simp
  next
    case lat: (Inr lat)
    show ?thesis
    proof (cases "row_get row lonc")
      case (Inl e)
      with Cons.prems acc lat show ?thesis by simp
    next
      case lon: (Inr lon)
      obtain r g1 w1 where call: "reverse_geocode rnd net lat lon 3 (g, w) = (r, g1, w1)"
        by (metis prod_cases3)
      from reverse_geocode_inv [OF call Cons.prems(2,3)]
      have inv1: "cache_inv g1 w1" and sep1: "separate g1 w1 H"
        by (auto intro: separate_mono)
      from Cons.prems(1) acc lat lon call obtain acc1 where
        "process_csv_loop rnd net latc lonc rs (acc1, g1, w1) = (res, g', w')"
        by simp
      from Cons.IH [OF this inv1 sep1] show ?thesis .
    qed
  qed
qed

lemma process_csv_inv:
  assumes "process_csv rnd net df latc lonc (g, w) = (res, g', w')"
    and "cache_inv g w" and "separate g w H"
  shows "cache_inv g' w' \<and> separate g' w' H"
proof (cases "latc \<notin> set (columns df) \<or> lonc \<notin> set (columns df)")
  case True
  with assms show ?thesis by (auto simp add: process_csv_def)
next
  case False
  obtain res1 g1 w1 where loop:
    "process_csv_loop rnd net latc lonc (rows df) (([], 0), g, w) = (res1, g1, w1)"
    by (metis prod_cases3)
  from process_csv_loop_inv [OF loop assms(2,3)]
  have inv1: "cache_inv g1 w1 \<and> separate g1 w1 H" .
  from assms(1) False loop have "g' = g1 \<and> w' = w1"
    by (auto simp add: process_csv_def split: sum.splits prod.splits)
  with inv1 show ?thesis by simp
qed

lemma reverse_geocode_keeps:
  assumes "reverse_geocode rnd net lat lon n (g, w) = (r, g', w')"
  shows "next_ref w \<le> next_ref w' \<and> (\<forall>a<next_ref w. heap w' a = heap w a)
    \<and> (\<forall>k t. cache g k = Some t \<longrightarrow> cache g' k = Some t)"
proof -
  from reverse_geocode_frame [OF assms]
  have "next_ref w \<le> next_ref w'" and "\<forall>a<next_ref w. heap w' a = heap w a"
    by simp_all
  moreover from reverse_geocode_cases [OF assms]
  have "\<forall>k t. cache g k = Some t \<longrightarrow> cache g' k = Some t"
    by (elim conjE disjE exE) auto
  ultimately show ?thesis by simp
qed

lemma process_csv_loop_keeps:
  "process_csv_loop rnd net latc lonc rs (acc, g, w) = (res, g', w') \<Longrightarrow>
   next_ref w \<le> next_ref w' \<and> (\<forall>a<next_ref w. heap w' a = heap w a)
     \<and> (\<forall>k t. cache g k = Some t \<longrightarrow> cache g' k = Some t)"
proof (induction rs arbitrary: acc g w)
  case Nil
  then show ?case by simp
next
  case (Cons row rs)
  obtain refs cnt where acc: "acc = (refs, cnt)" by (cases acc)
  show ?case
  proof (cases "row_get row latc")
    case (Inl e)
    with Cons.prems acc show ?thesis by simp
  next
    case lat: (Inr lat)
    show ?thesis
    proof (cases "row_get row lonc")
      case (Inl e)
      with Cons.prems acc lat show ?thesis by simp
    next
      case lon: (Inr lon)
      obtain r g1 w1 where call: "reverse_geocode rnd net lat lon 3 (g, w) = (r, g1, w1)"
        by (metis prod_cases3)
      from reverse_geocode_keeps [OF call]
      have k1: "next_ref w \<le> next_ref w1" "\<forall>a<next_ref w. heap w1 a = heap w a"
        "\<forall>k t. cache g k = Some t \<longrightarrow> cache g1 k = Some t"
        by simp_all
      from Cons.prems acc lat lon call obtain acc1 where
        "process_csv_loop rnd net latc lonc rs (acc1, g1, w1) = (res, g', w')"
        by simp
      from Cons.IH [OF this]
      have k2: "next_ref w1 \<le> next_ref w'" "\<forall>a<next_ref w1. heap w' a = heap w1 a"
        "\<forall>k t. cache g1 k = Some t \<longrightarrow> cache g' k = Some t"
        by simp_all
      from k1 k2 show ?thesis
        by (metis (no_types, lifting) le_trans less_le_trans)
    qed
  qed
qed

lemma process_csv_keeps:
  assumes "process_csv rnd net df latc lonc (g, w) = (res, g', w')"
  shows "next_ref w \<le> next_ref w' \<and> (\<forall>a<next_ref w. heap w' a = heap w a)
     \<and> (\<forall>k t. cache g k = Some t \<longrightarrow> cache g' k = Some t)"
proof (cases "latc \<notin> set (columns df) \<or> lonc \<notin> set (columns df)")
  case True
  with assms show ?thesis by (auto simp add: process_csv_def)
next
  case False
  obtain res1 g1 w1 where loop:
    "process_csv_loop rnd net latc lonc (rows df) (([], 0), g, w) = (res1, g1, w1)"
    by (metis prod_cases3)
  from assms False loop have "g' = g1 \<and> w' = w1"
    by (auto simp add: process_csv_def split: sum.splits prod.splits)
  with process_csv_loop_keeps [OF loop] show ?thesis by simp
qed

lemma successful_call_is_cached:
  assumes "reverse_geocode rnd net lat lon n (g, w) = (r, g', w')"
    and "status (heap w' r) = ''success''"
    and "cache_inv g w"
  shows "\<exists>t. cache g' (rnd lat, rnd lon) = Some t
    \<and> place_cells (heap w' t) = place_cells (heap w' r)"
proof -
  from reverse_geocode_cases [OF assms(1)]
  have r: "r = next_ref w" by simp
  from reverse_geocode_cases [OF assms(1)]
  consider (hit) t where "cache g (rnd lat, rnd lon) = Some t"
      "g' = g\<lparr>cache_hits := cache_hits g + 1\<rparr>"
      "heap w' = (heap w)(r := (heap w t)\<lparr>latitude := lat, longitude := lon\<rparr>)"
    | (ok) a d where
      "heap w' = (heap w)(r := success_result lat lon (Json a d),
                          Suc r := success_result lat lon (Json a d))"
      "g' = g\<lparr>cache_misses := cache_misses g + 1,
              cache := (cache g)((rnd lat, rnd lon) \<mapsto> Suc r)\<rparr>"
    | (err) le where "heap w' = (heap w)(r := error_result lat lon le)"
    by blast
  then show ?thesis
  proof cases
    case hit
    from assms(3) hit(1) r have "t \<noteq> r"
      unfolding cache_inv_def by blast
    with hit show ?thesis
      by (simp add: place_cells_def)
  next
    case ok
    then show ?thesis by simp
  next
    case err
    with assms(2) show ?thesis
      by (simp add: error_result_def)
  qed
qed

section \<open>What a client's session does\<close>

lemma init_inv: "cache_inv init_geocoder w0 \<and> separate init_geocoder w0 (set [])"
  by (simp add: cache_inv_def separate_def init_geocoder_def)

lemma client_step_inv:
  assumes "client_step rnd net step (g, w, held) = (g', w', held')"
    and "cache_inv g w" and "separate g w (set held)"
  shows "cache_inv g' w' \<and> separate g' w' (set held')"
proof (cases step)
  case (ReverseGeocode lat lon n)
  obtain r g1 w1 where call: "reverse_geocode rnd net lat lon n (g, w) = (r, g1, w1)"
    by (metis prod_cases3)
  from reverse_geocode_inv [OF call assms(2,3)] assms(1) ReverseGeocode call
  show ?thesis by auto
next
  case GetCacheStats
  with assms show ?thesis by (auto simp add: get_cache_stats_def)
next
  case ClearCache
  with assms show ?thesis
    by (auto simp add: clear_cache_def cache_inv_def separate_def)
next
  case (ProcessCsv df latc lonc)
  obtain res g1 w1 where run: "process_csv rnd net df latc lonc (g, w) = (res, g1, w1)"
    by (metis prod_cases3)
  from process_csv_inv [OF run assms(2,3)] assms(1) ProcessCsv run
  show ?thesis by auto
next
  case (Update a upd)
  show ?thesis
  proof (cases "a \<in> set held")
    case True
    with assms(3) have "\<forall>k. cache g k \<noteq> Some a"
      unfolding separate_def by blast
    then have "cache_inv g (dict_set a upd w)"
      using assms(2) unfolding cache_inv_def dict_set_def by auto
    moreover have "separate g (dict_set a upd w) (set held)"
      using assms(3) unfolding separate_def dict_set_def by auto
    ultimately show ?thesis using assms(1) Update True by auto
  next
    case False
    with assms Update show ?thesis by auto
  qed
qed

lemma session_inv:
  "session rnd net steps (g, w, held) = (g', w', held') \<Longrightarrow>
   cache_inv g w \<Longrightarrow> separate g w (set held) \<Longrightarrow>
   cache_inv g' w' \<and> separate g' w' (set held')"
proof (induction steps arbitrary: g w held)
  case Nil
  then show ?case by simp
next
  case (Cons step steps)
  obtain g1 w1 held1 where one: "client_step rnd net step (g, w, held) = (g1, w1, held1)"
    by (metis prod_cases3)
  from client_step_inv [OF one Cons.prems(2,3)]
  have inv1: "cache_inv g1 w1" "separate g1 w1 (set held1)" by simp_all
  from Cons.prems(1) one
  have "session rnd net steps (g1, w1, held1) = (g', w', held')" by simp
  from Cons.IH [OF this inv1] show ?case .
qed

lemma client_step_keeps:
  assumes "client_step rnd net step (g, w, held) = (g', w', held')"
    and "step \<noteq> ClearCache"
    and "cache_inv g w" and "separate g w (set held)"
    and "cache g k = Some t"
  shows "cache g' k = Some t \<and> heap w' t = heap w t \<and> set held \<subseteq> set held'"
proof -
  from assms(3,5) have alloc: "t < next_ref w"
    unfolding cache_inv_def by blast
  show ?thesis
  proof (cases step)
    case (ReverseGeocode lat lon n)
    obtain r g1 w1 where call: "reverse_geocode rnd net lat lon n (g, w) = (r, g1, w1)"
      by (metis prod_cases3)
    from reverse_geocode_keeps [OF call] alloc assms(5)
    have "cache g1 k = Some t \<and> heap w1 t = heap w t" by blast
    with assms(1) ReverseGeocode call show ?thesis by auto
  next
    case GetCacheStats
    with assms show ?thesis by (auto simp add: get_cache_stats_def)
  next
    case ClearCache
    with assms(2) show ?thesis by simp
  next
    case (ProcessCsv df latc lonc)
    obtain res g1 w1 where run: "process_csv rnd net df latc lonc (g, w) = (res, g1, w1)"
      by (metis prod_cases3)
    from process_csv_keeps [OF run] alloc assms(5)
    have "cache g1 k = Some t \<and> heap w1 t = heap w t" by blast
    with assms(1) ProcessCsv run show ?thesis by auto
  next
    case (Update a upd)
    show ?thesis
    proof (cases "a \<in> set held")
      case True
      with assms(4,5) have "a \<noteq> t"
        unfolding separate_def by blast
      with assms(1,5) Update True show ?thesis
        by (auto simp add: dict_set_def)
    next
      case False
      with assms Update show ?thesis by auto
    qed
  qed
qed

lemma session_keeps:
  "session rnd net steps (g, w, held) = (g', w', held') \<Longrightarrow>
   ClearCache \<notin> set steps \<Longrightarrow>
   cache_inv g w \<Longrightarrow> separate g w (set held) \<Longrightarrow> cache g k = Some t \<Longrightarrow>
   cache g' k = Some t \<and> heap w' t = heap w t"
proof (induction steps arbitrary: g w held)
  case Nil
  then show ?case by simp
next
  case (Cons step steps)
  obtain g1 w1 held1 where one: "client_step rnd net step (g, w, held) = (g1, w1, held1)"
    by (metis prod_cases3)
  from Cons.prems(2) have ne: "step \<noteq> ClearCache" and rest: "ClearCache \<notin> set steps"
    by auto
  from client_step_keeps [OF one ne Cons.prems(3,4,5)]
  have k1: "cache g1 k = Some t" "heap w1 t = heap w t" by simp_all
  from client_step_inv [OF one Cons.prems(3,4)]
  have inv1: "cache_inv g1 w1" "separate g1 w1 (set held1)" by simp_all
  from Cons.prems(1) one
  have "session rnd net steps (g1, w1, held1) = (g', w', held')" by simp
  from Cons.IH [OF this rest inv1 k1(1)] k1(2) show ?case by simp
qed

section \<open>The cache\<close>

text \<open>
  C1. Take any session of a client with a new instance, then a call of \<open>reverse_geocode\<close>
  that returns a result with status \<open>success\<close>, then any further steps of the client
  other than \<open>clear_cache\<close> (calls for any coordinates, \<open>get_cache_stats\<close>,
  \<open>process_csv\<close>, changes to the results it holds, the first one included), and then a
  call with coordinates that round to the same key. This second call is a cache hit: it
  adds no event to the trace (no request, no sleep), adds exactly one to the hit counter
  and leaves the miss counter and the cache alone, and the result it returns carries the
  second call's own coordinates and the place fields and status of the first result as
  it was returned.
\<close>

theorem cache_hit_on_second_call:
  assumes "session rnd net before (init_geocoder, w0, []) = (g, w, held)"
    and "reverse_geocode rnd net lat1 lon1 n1 (g, w) = (r1, g1, w1)"
    and "status (heap w1 r1) = ''success''"
    and "ClearCache \<notin> set between"
    and "session rnd net between (g1, w1, r1 # held) = (g2, w2, held2)"
    and "rnd lat2 = rnd lat1" and "rnd lon2 = rnd lon1"
    and "reverse_geocode rnd net lat2 lon2 n2 (g2, w2) = (r2, g3, w3)"
  shows "trace w3 = trace w2
    \<and> cache_hits g3 = cache_hits g2 + 1
    \<and> cache_misses g3 = cache_misses g2
    \<and> cache g3 = cache g2
    \<and> latitude (heap w3 r2) = lat2
    \<and> longitude (heap w3 r2) = lon2
    \<and> place_cells (heap w3 r2) = place_cells (heap w1 r1)
    \<and> status (heap w3 r2) = ''success''"
proof -
  have "cache_inv init_geocoder w0" and "separate init_geocoder w0 (set [])"
    using init_inv [of w0] by blast+
  from session_inv [OF assms(1) this]
  have inv: "cache_inv g w" "separate g w (set held)"
    by blast+
  from reverse_geocode_inv [OF assms(2) inv]
  have inv1: "cache_inv g1 w1" "separate g1 w1 (set (r1 # held))"
    by simp_all
  from successful_call_is_cached [OF assms(2,3) inv(1)]
  obtain t where t1: "cache g1 (rnd lat1, rnd lon1) = Some t"
    and p1: "place_cells (heap w1 t) = place_cells (heap w1 r1)"
    by blast
  from session_keeps [OF assms(5,4) inv1 t1]
  have t2: "cache g2 (rnd lat1, rnd lon1) = Some t" and same: "heap w2 t = heap w1 t"
    by simp_all
  from t2 assms(6,7) have hit: "cache g2 (rnd lat2, rnd lon2) = Some t"
    by simp
  from assms(8) have res:
    "(r2, g3, w3) = (next_ref w2, g2\<lparr>cache_hits := cache_hits g2 + 1\<rparr>,
      w2\<lparr>heap := (heap w2)(next_ref w2 := (heap w2 t)\<lparr>latitude := lat2, longitude := lon2\<rparr>),
        next_ref := Suc (next_ref w2)\<rparr>)"
    using hit by (auto simp add: reverse_geocode_hit)
  then have "place_cells (heap w3 r2) = place_cells (heap w2 t)"
    by (auto simp add: place_cells_def)
  with same p1 have places: "place_cells (heap w3 r2) = place_cells (heap w1 r1)"
    by simp
  with assms(3) have "status (heap w3 r2) = ''success''"
    by (simp add: place_cells_def)
  with res places show ?thesis
    by auto
qed

theorem cache_hit_on_second_call_witness:
  "\<exists>r1 g1 w1 g2 w2 held2 r2 g3 w3.
     reverse_geocode (\<lambda>x::int. (x + 50) div 100)
       (\<lambda>_ lat _. Json (Some [''city'' \<mapsto> (if lat = 48856600 then ''Paris'' else ''London'')])
          None)
       48856600 2352200 3 (init_geocoder, fresh_world 0) = (r1, g1, w1)
     \<and> status (heap w1 r1) = ''success''
     \<and> session (\<lambda>x::int. (x + 50) div 100)
       (\<lambda>_ lat _. Json (Some [''city'' \<mapsto> (if lat = 48856600 then ''Paris'' else ''London'')])
          None)
       [ReverseGeocode 51507400 (- 127800) 3, Update r1 (city_update (\<lambda>_. Some ''edited''))]
       (g1, w1, [r1]) = (g2, w2, held2)
     \<and> reverse_geocode (\<lambda>x::int. (x + 50) div 100)
       (\<lambda>_ lat _. Json (Some [''city'' \<mapsto> (if lat = 48856600 then ''Paris'' else ''London'')])
          None)
       48856604 2352201 3 (g2, w2) = (r2, g3, w3)
     \<and> trace w3 = trace w2
     \<and> cache_hits g3 = cache_hits g2 + 1
     \<and> cache_misses g3 = cache_misses g2
     \<and> latitude (heap w3 r2) = 48856604
     \<and> longitude (heap w3 r2) = 2352201
     \<and> city (heap w3 r2) = Some ''Paris''"
proof -
  let ?rnd = "\<lambda>x::int. (x + 50) div 100"
  let ?net = "\<lambda>(_ :: int event list) (lat :: int) (_ :: int).
      Json (Some [''city'' \<mapsto> (if lat = 48856600 then ''Paris'' else ''London'')]) None"
  obtain r1 g1 w1 where first:
    "reverse_geocode ?rnd ?net 48856600 2352200 3 (init_geocoder, fresh_world 0) = (r1, g1, w1)"
    by (metis prod_cases3)
  then have ok: "status (heap w1 r1) = ''success''"
    and paris: "city (heap w1 r1) = Some ''Paris''"
    by (auto simp add: reverse_geocode_def init_geocoder_def fresh_world_def upt_rec
        http_get_def sleep_def new_dict_def dict_copy_def status_success_result
        success_result_fields extract_city_def city_fields_def)
  let ?between = "[ReverseGeocode 51507400 (- 127800) 3,
      Update r1 (city_update (\<lambda>_. Some ''edited''))]"
  obtain g2 w2 held2 where between:
    "session ?rnd ?net ?between (g1, w1, [r1]) = (g2, w2, held2)"
    by (metis prod_cases3)
  obtain r2 g3 w3 where second:
    "reverse_geocode ?rnd ?net 48856604 2352201 3 (g2, w2) = (r2, g3, w3)"
    by (metis prod_cases3)
  have start: "session ?rnd ?net [] (init_geocoder, fresh_world 0, []) =
      (init_geocoder, fresh_world 0, [])"
    by simp
  have no_clear: "ClearCache \<notin> set ?between"
    by simp
  have same: "?rnd 48856604 = ?rnd 48856600" "?rnd 2352201 = ?rnd 2352200"
    by simp_all
  from cache_hit_on_second_call [OF start first ok no_clear between same second]
  have hit: "trace w3 = trace w2" "cache_hits g3 = cache_hits g2 + 1"
    "cache_misses g3 = cache_misses g2"
    "latitude (heap w3 r2) = 48856604" "longitude (heap w3 r2) = 2352201"
    and places: "place_cells (heap w3 r2) = place_cells (heap w1 r1)"
    by blast+
  from places paris have city: "city (heap w3 r2) = Some ''Paris''"
    by (simp add: place_cells_def)
  show ?thesis
    apply (rule exI [of _ r1])
    apply (rule exI [of _ g1])
    apply (rule exI [of _ w1])
    apply (rule exI [of _ g2])
    apply (rule exI [of _ w2])
    apply (rule exI [of _ held2])
    apply (rule exI [of _ r2])
    apply (rule exI [of _ g3])
    apply (rule exI [of _ w3])
    apply (intro conjI)
             apply (rule first)
            apply (rule ok)
           apply (rule between)
          apply (rule second)
         apply (rule hit(1))
        apply (rule hit(2))
       apply (rule hit(3))
      apply (rule hit(4))
     apply (rule hit(5))
    apply (rule city)
    done
qed

text \<open>
  C2. A call that misses the cache, uses up its attempts and returns a result whose
  status begins with \<open>error:\<close> leaves the cache as it was, with nothing stored under the
  rounded key. The next call with coordinates that round to the same key is therefore a
  miss again: it adds one to the miss counter, none to the hit counter, and, being allowed
  at least one attempt, it starts with the rate-limit sleep and a new request.
\<close>

theorem errors_are_not_cached:
  assumes "cache g (rnd lat, rnd lon) = None"
    and "reverse_geocode rnd net lat lon n (g, w) = (r, g1, w1)"
    and "take 6 (status (heap w1 r)) = ''error:''"
    and "rnd lat2 = rnd lat" and "rnd lon2 = rnd lon"
    and "reverse_geocode rnd net lat2 lon2 m (g1, w1) = (r2, g2, w2)"
  shows "cache g1 = cache g
    \<and> cache g1 (rnd lat2, rnd lon2) = None
    \<and> cache_misses g2 = cache_misses g1 + 1
    \<and> cache_hits g2 = cache_hits g1
    \<and> (\<exists>evs. trace w2 = trace w1 @ evs \<and>
          (0 < m \<longrightarrow> take 2 evs = [Sleep 1, HttpGet lat2 lon2]))"
proof -
  from reverse_geocode_cases [OF assms(2)] assms(1,3)
  have g1: "g1 = g\<lparr>cache_misses := cache_misses g + 1\<rparr>"
    by (auto simp add: status_success_result)
  with assms(1,4,5) have miss: "cache g1 (rnd lat2, rnd lon2) = None"
    by simp
  from reverse_geocode_cases [OF assms(6)] miss
  have "cache_misses g2 = cache_misses g1 + 1 \<and> cache_hits g2 = cache_hits g1"
    by auto
  moreover from reverse_geocode_miss_trace [OF miss assms(6)]
  have "\<exists>evs. trace w2 = trace w1 @ evs \<and> (0 < m \<longrightarrow> take 2 evs = [Sleep 1, HttpGet lat2 lon2])"
    by auto
  ultimately show ?thesis using g1 miss by simp
qed

theorem errors_are_not_cached_witness:
  "\<exists>r g1 w1 r2 g2 w2 evs.
     reverse_geocode (\<lambda>x::int. (x + 50) div 100) (\<lambda>_ _ _. RequestException ''timed out'')
       40712800 (- 74006000) 1 (init_geocoder, fresh_world 0) = (r, g1, w1)
     \<and> take 6 (status (heap w1 r)) = ''error:''
     \<and> reverse_geocode (\<lambda>x::int. (x + 50) div 100) (\<lambda>_ _ _. RequestException ''timed out'')
       40712804 (- 74006001) 3 (g1, w1) = (r2, g2, w2)
     \<and> cache g1 = Map.empty
     \<and> cache_misses g2 = 2
     \<and> cache_hits g2 = 0
     \<and> trace w2 = trace w1 @ evs
     \<and> take 2 evs = [Sleep 1, HttpGet 40712804 (- 74006001)]"
proof -
  let ?rnd = "\<lambda>x::int. (x + 50) div 100"
  let ?net = "\<lambda>_ _ _. RequestException ''timed out''"
  obtain r g1 w1 where first:
    "reverse_geocode ?rnd ?net 40712800 (- 74006000) 1 (init_geocoder, fresh_world 0) = (r, g1, w1)"
    by (metis prod_cases3)
  then have err: "take 6 (status (heap w1 r)) = ''error:''" and m1: "cache_misses g1 = 1"
    and h1: "cache_hits g1 = 0"
    by (auto simp add: reverse_geocode_def init_geocoder_def fresh_world_def
        http_get_def sleep_def new_dict_def error_result_def)
  obtain r2 g2 w2 where second:
    "reverse_geocode ?rnd ?net 40712804 (- 74006001) 3 (g1, w1) = (r2, g2, w2)"
    by (metis prod_cases3)
  have miss: "cache (init_geocoder :: int geocoder) (?rnd 40712800, ?rnd (- 74006000)) = None"
    by (simp add: init_geocoder_def)
  have same: "?rnd 40712804 = ?rnd 40712800" "?rnd (- 74006001) = ?rnd (- 74006000)"
    by simp_all
  from errors_are_not_cached [OF miss first err same second] first err second m1 h1
  show ?thesis by (auto simp add: init_geocoder_def)
qed

text \<open>
  C10. For a new instance every cache entry is an allocated dictionary with status
  \<open>success\<close> and no result handed out is a dictionary of the cache (there are none of
  either). Every step of a client keeps this so, whether it calls \<open>reverse_geocode\<close>
  (whose result joins the results handed out), \<open>get_cache_stats\<close>, \<open>clear_cache\<close> or
  \<open>process_csv\<close>, or changes a result it holds; so it holds after every session. And
  whatever a client then writes into a result it holds, every dictionary of the cache
  stays as it is.
\<close>

theorem cache_entries_stay_successful_and_private:
  assumes "cache_inv g w" and "separate g w (set held)"
    and "session rnd net steps (g, w, held) = (g', w', held')"
  shows "cache_inv init_geocoder w0 \<and> separate init_geocoder w0 (set [])
    \<and> cache_inv g' w' \<and> separate g' w' (set held')
    \<and> (\<forall>a\<in>set held'. \<forall>upd k t. cache g' k = Some t \<longrightarrow>
          heap (dict_set a upd w') t = heap w' t)"
proof -
  from session_inv [OF assms(3,1,2)]
  have inv: "cache_inv g' w'" "separate g' w' (set held')"
    by simp_all
  have "heap (dict_set a upd w') t = heap w' t"
    if "a \<in> set held'" and "cache g' k = Some t" for a upd k t
  proof -
    from inv(2) that have "a \<noteq> t"
      unfolding separate_def by blast
    then show ?thesis by (simp add: dict_set_def)
  qed
  with inv init_inv [of w0] show ?thesis
    by blast
qed

theorem cache_entries_stay_successful_and_private_witness:
  "\<exists>g w held.
     session (\<lambda>x::int. (x + 50) div 100) (\<lambda>_ _ _. Json (Some [''city'' \<mapsto> ''Paris'']) None)
       [ReverseGeocode 48856600 2352200 3,
        Update 0 (status_update (\<lambda>_. ''edited'')),
        ProcessCsv \<lparr>columns = [''latitude'', ''longitude''],
                    rows = [[''latitude'' \<mapsto> 51507400, ''longitude'' \<mapsto> - 127800]]\<rparr>
          ''latitude'' ''longitude'',
        GetCacheStats]
       (init_geocoder, fresh_world 0, []) = (g, w, held)
     \<and> cache_inv g w
     \<and> separate g w (set held)
     \<and> cache_inv (clear_cache g) w
     \<and> separate (clear_cache g) w (set held)"
proof -
  let ?rnd = "\<lambda>x::int. (x + 50) div 100"
  let ?net = "\<lambda>(_ :: int event list) (_ :: int) (_ :: int).
      Json (Some [''city'' \<mapsto> ''Paris'']) None"
  let ?steps = "[ReverseGeocode 48856600 2352200 3,
        Update 0 (status_update (\<lambda>_. ''edited'')),
        ProcessCsv \<lparr>columns = [''latitude'', ''longitude''],
                    rows = [[''latitude'' \<mapsto> 51507400 :: int, ''longitude'' \<mapsto> - 127800]]\<rparr>
          ''latitude'' ''longitude'',
        GetCacheStats]"
  have i0: "cache_inv (init_geocoder :: int geocoder) (fresh_world (0 :: int))"
    "separate (init_geocoder :: int geocoder) (fresh_world (0 :: int)) (set [])"
    by (simp_all add: cache_inv_def separate_def init_geocoder_def)
  obtain g w held where run:
    "session ?rnd ?net ?steps (init_geocoder, fresh_world 0, []) = (g, w, held)"
    by (metis prod_cases3)
  from cache_entries_stay_successful_and_private [OF i0 run]
  have inv: "cache_inv g w" "separate g w (set held)"
    by blast+
  have more: "session ?rnd ?net (?steps @ [ClearCache]) (init_geocoder, fresh_world 0, [])
      = (clear_cache g, w, held)"
    using run by simp
  from cache_entries_stay_successful_and_private [OF i0 more]
  have inv': "cache_inv (clear_cache g) w" "separate (clear_cache g) w (set held)"
    by blast+
  show ?thesis
    apply (rule exI [of _ g])
    apply (rule exI [of _ w])
    apply (rule exI [of _ held])
    apply (intro conjI)
        apply (rule run)
       apply (rule inv(1))
      apply (rule inv(2))
     apply (rule inv'(1))
    apply (rule inv'(2))
    done
qed

section \<open>Retries\<close>

text \<open>
  C3. With \<open>max_retries = 3\<close>, a coordinate that is not cached and three failing
  attempts, the call makes exactly three requests, each after the one second rate-limit
  sleep, with a backoff sleep of 2 seconds after the first failure and of 4 seconds after
  the second and none after the third. The result has the status \<open>error: \<close> followed by
  the text of the last failure, and no city, state, country, country code, postcode or
  display name.
\<close>

theorem three_failed_attempts:
  assumes "cache g (rnd lat, rnd lon) = None"
    and "net (trace w @ [Sleep 1]) lat lon = RequestException e1"
    and "net (trace w @ [Sleep 1, HttpGet lat lon, Sleep 2, Sleep 1]) lat lon
           = RequestException e2"
    and "net (trace w @ [Sleep 1, HttpGet lat lon, Sleep 2, Sleep 1, HttpGet lat lon,
                         Sleep 4, Sleep 1]) lat lon = RequestException e3"
    and "reverse_geocode rnd net lat lon 3 (g, w) = (r, g', w')"
  shows "trace w' = trace w @ [Sleep 1, HttpGet lat lon, Sleep 2,
                               Sleep 1, HttpGet lat lon, Sleep 4,
                               Sleep 1, HttpGet lat lon]
    \<and> status (heap w' r) = ''error: '' @ e3
    \<and> city (heap w' r) = None \<and> state (heap w' r) = None \<and> country (heap w' r) = None
    \<and> country_code (heap w' r) = None \<and> postcode (heap w' r) = None
    \<and> display_name (heap w' r) = None
    \<and> latitude (heap w' r) = lat \<and> longitude (heap w' r) = lon
    \<and> cache g' = cache g"
  using assms
  by (auto simp add: reverse_geocode_def new_dict_def upt_rec sleep_def http_get_def
      numeral_3_eq_3 error_result_def str_error_def)

theorem three_failed_attempts_witness:
  "\<exists>r g' w'.
     reverse_geocode (\<lambda>x::int. (x + 50) div 100) (\<lambda>_ _ _. RequestException ''timed out'')
       40712800 (- 74006000) 3 (init_geocoder, fresh_world 0) = (r, g', w')
     \<and> trace w' = [Sleep 1, HttpGet 40712800 (- 74006000), Sleep 2,
                    Sleep 1, HttpGet 40712800 (- 74006000), Sleep 4,
                    Sleep 1, HttpGet 40712800 (- 74006000)]
     \<and> status (heap w' r) = ''error: timed out''
     \<and> city (heap w' r) = None
     \<and> country_code (heap w' r) = None"
proof -
  let ?rnd = "\<lambda>x::int. (x + 50) div 100"
  let ?net = "\<lambda>_ _ _. RequestException ''timed out''"
  obtain r g' w' where call:
    "reverse_geocode ?rnd ?net 40712800 (- 74006000) 3 (init_geocoder, fresh_world 0) = (r, g', w')"
    by (metis prod_cases3)
  have miss: "cache (init_geocoder :: int geocoder) (?rnd 40712800, ?rnd (- 74006000)) = None"
    by (simp add: init_geocoder_def)
  from three_failed_attempts [where net = ?net and rnd = ?rnd, OF miss refl refl refl call] call
  show ?thesis by (simp add: fresh_world_def)
qed

text \<open>
  C9. With \<open>max_retries = 0\<close> and a coordinate that is not cached the loop body never
  runs: the trace is unchanged (no request, no sleep), the miss counter goes up by one, and
  the result has no place fields and the status \<open>error: None\<close>.
\<close>

theorem zero_retries:
  assumes "cache g (rnd lat, rnd lon) = None"
    and "reverse_geocode rnd net lat lon 0 (g, w) = (r, g', w')"
  shows "trace w' = trace w
    \<and> cache_misses g' = cache_misses g + 1 \<and> cache_hits g' = cache_hits g
    \<and> cache g' = cache g
    \<and> status (heap w' r) = ''error: None''
    \<and> city (heap w' r) = None \<and> state (heap w' r) = None \<and> country (heap w' r) = None
    \<and> country_code (heap w' r) = None \<and> postcode (heap w' r) = None
    \<and> display_name (heap w' r) = None
    \<and> latitude (heap w' r) = lat \<and> longitude (heap w' r) = lon"
  using assms
  by (auto simp add: reverse_geocode_def new_dict_def error_result_def str_error_def)

theorem zero_retries_witness:
  "\<exists>r g' w'.
     reverse_geocode (\<lambda>x::int. (x + 50) div 100) (\<lambda>_ _ _. RequestException ''timed out'')
       40712800 (- 74006000) 0 (init_geocoder, fresh_world 0) = (r, g', w')
     \<and> trace w' = []
     \<and> cache_misses g' = 1
     \<and> status (heap w' r) = ''error: None''
     \<and> city (heap w' r) = None"
proof -
  let ?rnd = "\<lambda>x::int. (x + 50) div 100"
  let ?net = "\<lambda>_ _ _. RequestException ''timed out''"
  obtain r g' w' where call:
    "reverse_geocode ?rnd ?net 40712800 (- 74006000) 0 (init_geocoder, fresh_world 0) = (r, g', w')"
    by (metis prod_cases3)
  have miss: "cache (init_geocoder :: int geocoder) (?rnd 40712800, ?rnd (- 74006000)) = None"
    by (simp add: init_geocoder_def)
  from zero_retries [OF miss call] call
  show ?thesis by (simp add: fresh_world_def init_geocoder_def)
qed

section \<open>Fields of a successful result\<close>

text \<open>
  C4, as the code has it. A call that misses the cache and returns a result with status
  \<open>success\<close> built it from a response of the provider: the city is the extracted city,
  the state, country and postcode are the address's entries (\<open>None\<close> where the address
  has none), the display name is the response's, and the country code is the upper-cased
  entry of the address when there is one and the empty string when there is none.
\<close>

theorem fields_of_a_successful_result:
  assumes "cache g (rnd lat, rnd lon) = None"
    and "reverse_geocode rnd net lat lon n (g, w) = (r, g', w')"
    and "status (heap w' r) = ''success''"
  shows "\<exists>a d tr address. net tr lat lon = Json a d
    \<and> address = (case a of None \<Rightarrow> Map.empty | Some x \<Rightarrow> x)
    \<and> city (heap w' r) = extract_city address
    \<and> state (heap w' r) = address ''state''
    \<and> country (heap w' r) = address ''country''
    \<and> postcode (heap w' r) = address ''postcode''
    \<and> display_name (heap w' r) = d
    \<and> country_code (heap w' r) =
         (case address ''country_code'' of None \<Rightarrow> Some [] | Some cc \<Rightarrow> Some (upper cc))"
proof -
  from reverse_geocode_success [OF assms]
  obtain a d tr where "net tr lat lon = Json a d"
    and "heap w' r = success_result lat lon (Json a d)"
    by blast
  then show ?thesis
    by (intro exI [of _ a] exI [of _ d] exI [of _ tr]
        exI [of _ "case a of None \<Rightarrow> Map.empty | Some x \<Rightarrow> x"])
      (simp add: success_result_fields)
qed

theorem fields_of_a_successful_result_witness:
  "\<exists>r g' w'.
     reverse_geocode (\<lambda>x::int. (x + 50) div 100)
       (\<lambda>_ _ _. Json (Some [''town'' \<mapsto> ''Versailles'', ''country_code'' \<mapsto> ''fr'']) None)
       48804900 2120400 3 (init_geocoder, fresh_world 0) = (r, g', w')
     \<and> status (heap w' r) = ''success''
     \<and> city (heap w' r) = Some ''Versailles''
     \<and> state (heap w' r) = None
     \<and> display_name (heap w' r) = None
     \<and> country_code (heap w' r) = Some ''FR''"
proof -
  let ?rnd = "\<lambda>x::int. (x + 50) div 100"
  let ?net = "\<lambda>_ _ _. Json (Some [''town'' \<mapsto> ''Versailles'', ''country_code'' \<mapsto> ''fr'']) None"
  obtain r g' w' where call:
    "reverse_geocode ?rnd ?net 48804900 2120400 3 (init_geocoder, fresh_world 0) = (r, g', w')"
    by (metis prod_cases3)
  then have ok: "status (heap w' r) = ''success''"
    by (auto simp add: reverse_geocode_def init_geocoder_def fresh_world_def upt_rec
        http_get_def sleep_def new_dict_def dict_copy_def status_success_result)
  have miss: "cache (init_geocoder :: int geocoder) (?rnd 48804900, ?rnd 2120400) = None"
    by (simp add: init_geocoder_def)
  have up: "upper ''fr'' = ''FR''"
    by code_simp
  from fields_of_a_successful_result [OF miss call ok] call ok up
  show ?thesis
    by (auto simp add: extract_city_def city_fields_def)
qed

text \<open>
  An address without a \<open>country_code\<close> key gives the country code \<open>''\<close>, not \<open>None\<close>:
  the default of \<open>address.get('country_code', '')\<close> is upper-cased and stored.
\<close>

theorem absent_country_code_counterexample:
  "status (heap
      (snd (snd (reverse_geocode (\<lambda>x::int. (x + 50) div 100)
         (\<lambda>_ _ _. Json (Some [''country'' \<mapsto> ''France'']) None)
         48856600 2352200 3 (init_geocoder, fresh_world 0))))
      (fst (reverse_geocode (\<lambda>x::int. (x + 50) div 100)
         (\<lambda>_ _ _. Json (Some [''country'' \<mapsto> ''France'']) None)
         48856600 2352200 3 (init_geocoder, fresh_world 0)))) = ''success''
   \<and> country_code (heap
      (snd (snd (reverse_geocode (\<lambda>x::int. (x + 50) div 100)
         (\<lambda>_ _ _. Json (Some [''country'' \<mapsto> ''France'']) None)
         48856600 2352200 3 (init_geocoder, fresh_world 0))))
      (fst (reverse_geocode (\<lambda>x::int. (x + 50) div 100)
         (\<lambda>_ _ _. Json (Some [''country'' \<mapsto> ''France'']) None)
         48856600 2352200 3 (init_geocoder, fresh_world 0)))) = Some []"
  by (simp add: reverse_geocode_def init_geocoder_def fresh_world_def upt_rec
      http_get_def sleep_def new_dict_def dict_copy_def success_result_def upper_def)

section \<open>City extraction\<close>

text \<open>
  C5. For every address object the extracted city is the value of the first field present
  in the order city, town, village, municipality, hamlet, and \<open>None\<close> when none of them
  is present. The address with town Springfield and village Shelbyville gives Springfield;
  the empty address gives \<open>None\<close>.
\<close>

theorem extract_city_priority:
  "extract_city a =
     (case a ''city'' of Some v \<Rightarrow> Some v | None \<Rightarrow>
      (case a ''town'' of Some v \<Rightarrow> Some v | None \<Rightarrow>
      (case a ''village'' of Some v \<Rightarrow> Some v | None \<Rightarrow>
      (case a ''municipality'' of Some v \<Rightarrow> Some v | None \<Rightarrow>
      (case a ''hamlet'' of Some v \<Rightarrow> Some v | None \<Rightarrow> None)))))
   \<and> extract_city [''town'' \<mapsto> ''Springfield'', ''village'' \<mapsto> ''Shelbyville'']
       = Some ''Springfield''
   \<and> extract_city Map.empty = None"
  by (simp add: extract_city_def city_fields_def split: option.splits)

theorem extract_city_priority_witness:
  "extract_city [''hamlet'' \<mapsto> ''Lower Slaughter'', ''village'' \<mapsto> ''Bourton'']
     = Some ''Bourton''"
  using extract_city_priority
    [of "[''hamlet'' \<mapsto> ''Lower Slaughter'', ''village'' \<mapsto> ''Bourton'']"]
  by simp

section \<open>The batch loop of \<open>process_geocoding\<close>\<close>

lemma side_by_side_zip:
  "length xs = length ys \<Longrightarrow> side_by_side xs ys = zip (map Some xs) (map Some ys)"
  by (induction xs ys rule: list_induct2) simp_all

lemma drop_DataFrame_empty:
  "drop_lat_lon (DataFrame [] w) = Inl (KeyError [''latitude'', ''longitude''])"
  by (simp add: drop_lat_lon_def DataFrame_def)

lemma drop_DataFrame:
  "refs \<noteq> [] \<Longrightarrow>
   drop_lat_lon (DataFrame refs w) =
     Inr \<lparr>columns = [''city'', ''state'', ''country'', ''country_code'', ''postcode'',
                      ''display_name'', ''status''],
          rows = map (\<lambda>r. place_cells (heap w r)) refs\<rparr>"
  by (simp add: drop_lat_lon_def DataFrame_def result_keys_def)

lemma concat_snapshot:
  assumes "length refs = q" and "q \<le> length (rows df)"
  shows "concat_axis1 (iloc_upto q df)
           \<lparr>columns = [''city'', ''state'', ''country'', ''country_code'', ''postcode'',
                       ''display_name'', ''status''],
            rows = map (\<lambda>r. place_cells (heap w r)) refs\<rparr>
         = joined df (map (heap w) refs) q"
  using assms
  by (simp add: concat_axis1_def iloc_upto_def joined_def side_by_side_zip comp_def)

lemma geocoding_loop_append:
  "geocoding_loop rnd net df latc lonc N (xs @ ys) (b, g, w) =
     (case geocoding_loop rnd net df latc lonc N xs (b, g, w) of
        (Inl e, g', w') \<Rightarrow> (Inl e, g', w')
      | (Inr b', g', w') \<Rightarrow> geocoding_loop rnd net df latc lonc N ys (b', g', w'))"
proof (induction xs arbitrary: b g w)
  case Nil
  show ?case by simp
next
  case (Cons x xs)
  show ?case
  proof (cases "geocoding_step rnd net df latc lonc N x (b, g, w)")
    case (fields res g1 w1)
    then show ?thesis
      by (cases res) (simp_all add: Cons.IH)
  qed
qed

lemma geocoding_step_eq:
  assumes "row latc = Some lat" and "row lonc = Some lon"
    and "reverse_geocode rnd net lat lon 3 (g, w) = (r, g', w')"
    and "length (results b) = processed b" and "processed b < length (rows df)"
  shows "geocoding_step rnd net df latc lonc N row (b, g, w) =
    (Inr (if Suc (processed b) mod 50 = 0 \<or> Suc (processed b) = N
          then b\<lparr>results := results b @ [r], processed := Suc (processed b),
                 output_file := Some (joined df (map (heap w') (results b @ [r]))
                                        (Suc (processed b))),
                 saved_at := saved_at b @ [Suc (processed b)]\<rparr>
          else b\<lparr>results := results b @ [r], processed := Suc (processed b)\<rparr>), g', w')"
proof -
  have "concat_axis1 (iloc_upto (Suc (processed b)) df)
           \<lparr>columns = [''city'', ''state'', ''country'', ''country_code'', ''postcode'',
                       ''display_name'', ''status''],
            rows = map (\<lambda>r. place_cells (heap w' r)) (results b @ [r])\<rparr>
         = joined df (map (heap w') (results b @ [r])) (Suc (processed b))"
    using assms(4,5) by (intro concat_snapshot) simp_all
  then show ?thesis
    using assms(1,2,3)
    by (simp add: geocoding_step_def row_get_def Let_def batch_save_interval_def
        drop_DataFrame del: map_append)
qed

lemma joined_older:
  assumes "q \<le> length refs" and "\<forall>a\<in>set refs. heap w' a = heap w a"
  shows "joined df (map (heap w') (refs @ [r])) q = joined df (map (heap w) refs) q"
proof -
  from assms(2) have same: "map (heap w') refs = map (heap w) refs"
    by simp
  from assms(1) have "take q (map (heap w') (refs @ [r])) = take q (map (heap w') refs)"
    by simp
  then show ?thesis
    unfolding joined_def by (simp only: same)
qed

lemma saved_rows_upt:
  "filter P [1..<Suc (Suc p)] = filter P [1..<Suc p] @ (if P (Suc p) then [Suc p] else [])"
  by simp

lemma last_saved_le:
  assumes "filter P [1..<Suc p] \<noteq> []"
  shows "last (filter P [1..<Suc p]) \<le> p"
proof -
  from assms have "last (filter P [1..<Suc p]) \<in> set (filter P [1..<Suc p])"
    by (rule last_in_set)
  then show ?thesis by (simp del: upt_Suc)
qed

lemma geocoding_loop_prefix:
  assumes cols: "\<forall>row\<in>set (rows df). row latc \<noteq> None \<and> row lonc \<noteq> None"
    and "p \<le> length (rows df)"
  shows "\<exists>b g' w'.
      geocoding_loop rnd net df latc lonc N (take p (rows df)) (start_batch, init_geocoder, w)
        = (Inr b, g', w')
    \<and> processed b = p \<and> length (results b) = p
    \<and> (\<forall>r\<in>set (results b). r < next_ref w')
    \<and> saved_at b = filter (\<lambda>q. q mod 50 = 0 \<or> q = N) [1..<Suc p]
    \<and> output_file b =
        (if saved_at b = [] then None
         else Some (joined df (map (heap w') (results b)) (last (saved_at b))))
    \<and> (\<forall>i<p. latitude (heap w' (results b ! i)) = the ((rows df ! i) latc)
            \<and> longitude (heap w' (results b ! i)) = the ((rows df ! i) lonc))"
  using assms(2)
proof (induction p)
  case 0
  show ?case by (simp add: start_batch_def)
next
  case (Suc p)
  let ?P = "\<lambda>q. q mod 50 = 0 \<or> q = N"
  from Suc.prems have p: "p < length (rows df)" by simp
  with Suc.IH obtain b g1 w1 where
    loop: "geocoding_loop rnd net df latc lonc N (take p (rows df))
             (start_batch, init_geocoder, w) = (Inr b, g1, w1)"
    and proc: "processed b = p" and len: "length (results b) = p"
    and alloc: "\<forall>r\<in>set (results b). r < next_ref w1"
    and saved: "saved_at b = filter ?P [1..<Suc p]"
    and outf: "output_file b =
        (if saved_at b = [] then None
         else Some (joined df (map (heap w1) (results b)) (last (saved_at b))))"
    and coords: "\<forall>i<p. latitude (heap w1 (results b ! i)) = the ((rows df ! i) latc)
            \<and> longitude (heap w1 (results b ! i)) = the ((rows df ! i) lonc)"
    by auto
  let ?row = "rows df ! p"
  from p cols obtain lat lon where lat: "?row latc = Some lat" and lon: "?row lonc = Some lon"
    by (metis nth_mem option.exhaust)
  obtain r g2 w2 where call: "reverse_geocode rnd net lat lon 3 (g1, w1) = (r, g2, w2)"
    by (metis prod_cases3)
  from reverse_geocode_frame [OF call]
  have r: "r = next_ref w1" and grow: "next_ref w1 < next_ref w2"
    and keep: "\<forall>a<next_ref w1. heap w2 a = heap w1 a"
    and rlat: "latitude (heap w2 r) = lat" and rlon: "longitude (heap w2 r) = lon"
    by blast+
  from alloc keep have old: "\<forall>a\<in>set (results b). heap w2 a = heap w1 a"
    by simp
  let ?b1 = "if ?P (Suc p)
          then b\<lparr>results := results b @ [r], processed := Suc (processed b),
                 output_file := Some (joined df (map (heap w2) (results b @ [r]))
                                        (Suc (processed b))),
                 saved_at := saved_at b @ [Suc (processed b)]\<rparr>
          else b\<lparr>results := results b @ [r], processed := Suc (processed b)\<rparr>"
  from geocoding_step_eq [OF lat lon call, of b df N] len proc p
  have step: "geocoding_step rnd net df latc lonc N ?row (b, g1, w1) = (Inr ?b1, g2, w2)"
    by simp
  have "take (Suc p) (rows df) = take p (rows df) @ [?row]"
    using p by (rule take_Suc_conv_app_nth)
  with loop step have run:
    "geocoding_loop rnd net df latc lonc N (take (Suc p) (rows df))
       (start_batch, init_geocoder, w) = (Inr ?b1, g2, w2)"
    by (simp add: geocoding_loop_append)
  have c1: "processed ?b1 = Suc p \<and> length (results ?b1) = Suc p"
    using proc len by simp
  have res1: "results ?b1 = results b @ [r]"
    by simp
  have c2: "\<forall>a\<in>set (results ?b1). a < next_ref w2"
    using alloc grow r by (auto simp add: res1)
  have c3: "saved_at ?b1 = filter ?P [1..<Suc (Suc p)]"
    unfolding saved_rows_upt [of ?P p] using saved proc by simp
  have c4: "output_file ?b1 =
        (if saved_at ?b1 = [] then None
         else Some (joined df (map (heap w2) (results ?b1)) (last (saved_at ?b1))))"
  proof (cases "?P (Suc p)")
    case True
    then show ?thesis using proc by simp
  next
    case False
    show ?thesis
    proof (cases "saved_at b = []")
      case True
      with False outf show ?thesis by simp
    next
      case nonempty: False
      with saved have "last (saved_at b) \<le> length (results b)"
        using last_saved_le [of ?P p] len by simp
      from joined_older [OF this old]
      have "joined df (map (heap w2) (results b @ [r])) (last (saved_at b))
          = joined df (map (heap w1) (results b)) (last (saved_at b))" .
      with False nonempty outf show ?thesis by simp
    qed
  qed
  have c5: "\<forall>i<Suc p. latitude (heap w2 (results ?b1 ! i)) = the ((rows df ! i) latc)
            \<and> longitude (heap w2 (results ?b1 ! i)) = the ((rows df ! i) lonc)"
  proof (intro allI impI)
    fix i assume "i < Suc p"
    show "latitude (heap w2 (results ?b1 ! i)) = the ((rows df ! i) latc)
            \<and> longitude (heap w2 (results ?b1 ! i)) = the ((rows df ! i) lonc)"
    proof (cases "i = p")
      case True
      with len rlat rlon lat lon show ?thesis
        by (simp add: res1 nth_append)
    next
      case False
      with \<open>i < Suc p\<close> have i: "i < p" by simp
      with len have "results b ! i \<in> set (results b)" by simp
      with old have "heap w2 (results b ! i) = heap w1 (results b ! i)" by blast
      with coords i len show ?thesis
        by (simp add: res1 nth_append)
    qed
  qed
  from run c1 c2 c3 c4 c5 show ?case by blast
qed

lemma last_saved_now:
  assumes "0 < p" and "P p"
  shows "last (filter P [1..<Suc p]) = p"
  using assms by simp

lemma saves_in_first_fifty:
  "filter (\<lambda>q. q mod 50 = 0 \<or> q = (120::nat)) [1..<Suc 50] = [50]"
  by code_simp

text \<open>
  C8. Take a table whose rows all have the two coordinate columns, and the state of the
  batch loop after its first \<open>p\<close> rows. The loop has not raised; it saved exactly after the
  rows whose count is a multiple of 50 or the total; the file holds the last of these
  snapshots only, which is the table of the rows processed when it was written, each next
  to the place fields of its result, in input order; and when \<open>p\<close> itself is such a count
  the file holds exactly \<open>p\<close> rows. Result \<open>i\<close> carries the coordinates of row \<open>i\<close>.
\<close>

theorem snapshot_after_every_fifty_rows:
  assumes "\<forall>row\<in>set (rows df). row lat_column \<noteq> None \<and> row lon_column \<noteq> None"
    and "p \<le> length (rows df)"
  shows "\<exists>b g' w'.
      geocoding_loop rnd net df lat_column lon_column (length (rows df)) (take p (rows df))
        (start_batch, init_geocoder, w) = (Inr b, g', w')
    \<and> processed b = p \<and> length (results b) = p
    \<and> saved_at b =
        filter (\<lambda>q. q mod batch_save_interval = 0 \<or> q = length (rows df)) [1..<Suc p]
    \<and> output_file b =
        (if saved_at b = [] then None
         else Some (joined df (map (heap w') (results b)) (last (saved_at b))))
    \<and> (0 < p \<and> (p mod batch_save_interval = 0 \<or> p = length (rows df)) \<longrightarrow>
         output_file b = Some (joined df (map (heap w') (results b)) p)
         \<and> length (rows (joined df (map (heap w') (results b)) p)) = p)
    \<and> (\<forall>i<p. latitude (heap w' (results b ! i)) = the ((rows df ! i) lat_column)
            \<and> longitude (heap w' (results b ! i)) = the ((rows df ! i) lon_column))"
proof -
  let ?P = "\<lambda>q. q mod 50 = 0 \<or> q = length (rows df)"
  from geocoding_loop_prefix [OF assms, of rnd net "length (rows df)" w]
  obtain b g' w' where
    run: "geocoding_loop rnd net df lat_column lon_column (length (rows df)) (take p (rows df))
        (start_batch, init_geocoder, w) = (Inr b, g', w')"
    and c1: "processed b = p" "length (results b) = p"
    and saved: "saved_at b = filter ?P [1..<Suc p]"
    and outf: "output_file b =
        (if saved_at b = [] then None
         else Some (joined df (map (heap w') (results b)) (last (saved_at b))))"
    and coords: "\<forall>i<p. latitude (heap w' (results b ! i)) = the ((rows df ! i) lat_column)
            \<and> longitude (heap w' (results b ! i)) = the ((rows df ! i) lon_column)"
    by blast
  have now: "output_file b = Some (joined df (map (heap w') (results b)) p)
         \<and> length (rows (joined df (map (heap w') (results b)) p)) = p"
    if "0 < p" and "?P p"
  proof -
    from that have "last (filter ?P [1..<Suc p]) = p"
      by (rule last_saved_now)
    moreover from that have "filter ?P [1..<Suc p] \<noteq> []"
      by simp
    ultimately have "output_file b = Some (joined df (map (heap w') (results b)) p)"
      using outf saved by simp
    moreover have "length (rows (joined df (map (heap w') (results b)) p)) = p"
      using assms(2) c1 by (simp add: joined_def)
    ultimately show ?thesis by simp
  qed
  have now': "0 < p \<and> (p mod batch_save_interval = 0 \<or> p = length (rows df)) \<longrightarrow>
         output_file b = Some (joined df (map (heap w') (results b)) p)
         \<and> length (rows (joined df (map (heap w') (results b)) p)) = p"
    using now unfolding batch_save_interval_def by (intro impI) (elim conjE)
  have saved': "saved_at b =
        filter (\<lambda>q. q mod batch_save_interval = 0 \<or> q = length (rows df)) [1..<Suc p]"
    using saved unfolding batch_save_interval_def .
  show ?thesis
    apply (rule exI [of _ b])
    apply (rule exI [of _ g'])
    apply (rule exI [of _ w'])
    apply (intro conjI)
          apply (rule run)
         apply (rule c1(1))
        apply (rule c1(2))
       apply (rule saved')
      apply (rule outf)
     apply (rule now')
    apply (rule coords)
    done
qed

theorem snapshot_after_every_fifty_rows_witness:
  "\<exists>b g' w'.
      geocoding_loop (\<lambda>x::int. (x + 50) div 100) (\<lambda>_ _ _. RequestException ''timed out'')
        \<lparr>columns = [''latitude'', ''longitude''],
         rows = replicate 120 [''latitude'' \<mapsto> 48856600, ''longitude'' \<mapsto> 2352200]\<rparr>
        ''latitude'' ''longitude'' 120
        (replicate 50 [''latitude'' \<mapsto> 48856600, ''longitude'' \<mapsto> 2352200])
        (start_batch, init_geocoder, fresh_world 0) = (Inr b, g', w')
    \<and> processed b = 50
    \<and> saved_at b = [50]
    \<and> output_file b =
         Some (joined \<lparr>columns = [''latitude'', ''longitude''],
                 rows = replicate 120 [''latitude'' \<mapsto> 48856600, ''longitude'' \<mapsto> 2352200]\<rparr>
               (map (heap w') (results b)) 50)
    \<and> length (rows (joined \<lparr>columns = [''latitude'', ''longitude''],
                 rows = replicate 120 [''latitude'' \<mapsto> 48856600, ''longitude'' \<mapsto> 2352200]\<rparr>
               (map (heap w') (results b)) 50)) = 50"
proof -
  let ?row = "[''latitude'' \<mapsto> 48856600 :: int, ''longitude'' \<mapsto> 2352200]"
  let ?df = "\<lparr>columns = [''latitude'', ''longitude''], rows = replicate 120 ?row\<rparr>"
  have cols: "\<forall>row\<in>set (rows ?df). row ''latitude'' \<noteq> None \<and> row ''longitude'' \<noteq> None"
    by simp
  have p: "50 \<le> length (rows ?df)"
    by simp
  have t: "take 50 (rows ?df) = replicate 50 ?row"
    by simp
  let ?P = "\<lambda>q. q mod batch_save_interval = 0 \<or> q = length (rows ?df)"
  from snapshot_after_every_fifty_rows [OF cols p,
      of "\<lambda>x::int. (x + 50) div 100" "\<lambda>_ _ _. RequestException ''timed out''" "fresh_world 0"]
  obtain b g' w' where
    run: "geocoding_loop (\<lambda>x::int. (x + 50) div 100) (\<lambda>_ _ _. RequestException ''timed out'')
        ?df ''latitude'' ''longitude'' (length (rows ?df)) (take 50 (rows ?df))
        (start_batch, init_geocoder, fresh_world 0) = (Inr b, g', w')"
    and proc: "processed b = 50"
    and saved: "saved_at b = filter ?P [1..<Suc 50]"
    and now: "0 < (50::nat) \<and> (50 mod batch_save_interval = 0 \<or> 50 = length (rows ?df)) \<longrightarrow>
         output_file b = Some (joined ?df (map (heap w') (results b)) 50)
         \<and> length (rows (joined ?df (map (heap w') (results b)) 50)) = 50"
    by (elim exE conjE) (rule that)
  have len: "length (rows ?df) = 120"
    by simp
  from saved have "saved_at b = [50]"
    by (simp only: len batch_save_interval_def saves_in_first_fifty)
  moreover from now have "output_file b = Some (joined ?df (map (heap w') (results b)) 50)
         \<and> length (rows (joined ?df (map (heap w') (results b)) 50)) = 50"
    by (simp add: batch_save_interval_def)
  moreover from run have
    "geocoding_loop (\<lambda>x::int. (x + 50) div 100) (\<lambda>_ _ _. RequestException ''timed out'')
        ?df ''latitude'' ''longitude'' 120 (replicate 50 ?row)
        (start_batch, init_geocoder, fresh_world 0) = (Inr b, g', w')"
    by simp
  ultimately show ?thesis
    using proc by blast
qed

section \<open>The rows of the output\<close>

lemma process_csv_loop_rows:
  assumes "\<forall>row\<in>set rs. row latc \<noteq> None \<and> row lonc \<noteq> None"
  shows "\<exists>refs n g' w'.
      process_csv_loop rnd net latc lonc rs ((acc, cnt), g, w) = (Inr (acc @ refs, n), g', w')
    \<and> length refs = length rs"
  using assms
proof (induction rs arbitrary: acc cnt g w)
  case Nil
  show ?case by simp
next
  case (Cons row rs)
  then obtain lat lon where lat: "row latc = Some lat" and lon: "row lonc = Some lon"
    by auto
  obtain r g1 w1 where call: "reverse_geocode rnd net lat lon 3 (g, w) = (r, g1, w1)"
    by (metis prod_cases3)
  let ?cnt = "if status (heap w1 r) = ''success'' then cnt + 1 else cnt"
  from Cons.prems have "\<forall>row\<in>set rs. row latc \<noteq> None \<and> row lonc \<noteq> None"
    by simp
  from Cons.IH [OF this, of "acc @ [r]" ?cnt g1 w1]
  obtain refs n g' w' where
    rest: "process_csv_loop rnd net latc lonc rs ((acc @ [r], ?cnt), g1, w1)
             = (Inr ((acc @ [r]) @ refs, n), g', w')"
    and len: "length refs = length rs"
    by blast
  have "process_csv_loop rnd net latc lonc (row # rs) ((acc, cnt), g, w)
      = (Inr (acc @ (r # refs), n), g', w')"
    using lat lon call rest by (simp add: row_get_def)
  moreover have "length (r # refs) = length (row # rs)"
    using len by simp
  ultimately show ?case by blast
qed

lemma process_csv_rows_in_order:
  assumes "lat_column \<in> set (columns df)" and "lon_column \<in> set (columns df)"
    and "\<forall>row\<in>set (rows df). row lat_column \<noteq> None \<and> row lon_column \<noteq> None"
    and "rows df \<noteq> []"
  shows "\<exists>refs n g' w'.
      process_csv rnd net df lat_column lon_column (g, w)
        = (Inr ((n, length (rows df)),
                joined df (map (heap w') refs) (length (rows df))), g', w')
    \<and> length refs = length (rows df)"
proof -
  from process_csv_loop_rows [OF assms(3), of rnd net "[]" 0 g w]
  obtain refs n g' w' where
    loop: "process_csv_loop rnd net lat_column lon_column (rows df) (([], 0), g, w)
             = (Inr (refs, n), g', w')"
    and len: "length refs = length (rows df)"
    by auto
  from len assms(4) have ne: "refs \<noteq> []"
    by auto
  have "concat_axis1 df
           \<lparr>columns = [''city'', ''state'', ''country'', ''country_code'', ''postcode'',
                       ''display_name'', ''status''],
            rows = map (\<lambda>r. place_cells (heap w' r)) refs\<rparr>
         = joined df (map (heap w') refs) (length (rows df))"
    using concat_snapshot [OF len, of df w'] by (simp add: iloc_upto_def)
  with loop ne assms(1,2) have
    "process_csv rnd net df lat_column lon_column (g, w)
        = (Inr ((n, length (rows df)),
                joined df (map (heap w') refs) (length (rows df))), g', w')"
    by (simp add: process_csv_def drop_DataFrame)
  with len show ?thesis by blast
qed

lemma process_geocoding_rows_in_order:
  assumes "\<forall>row\<in>set (rows df). row lat_column \<noteq> None \<and> row lon_column \<noteq> None"
    and "rows df \<noteq> []"
  shows "\<exists>rep refs w'.
      process_geocoding rnd net df lat_column lon_column w = (Inr rep, w')
    \<and> output_df rep = joined df (map (heap w') refs) (length (rows df))
    \<and> length (rows (output_df rep)) = length (rows df)
    \<and> length refs = length (rows df)
    \<and> (\<forall>i<length (rows df).
          latitude (heap w' (refs ! i)) = the ((rows df ! i) lat_column)
          \<and> longitude (heap w' (refs ! i)) = the ((rows df ! i) lon_column))"
proof -
  let ?N = "length (rows df)"
  from geocoding_loop_prefix [OF assms(1) le_refl, of rnd net ?N w]
  obtain b g' w' where
    run: "geocoding_loop rnd net df lat_column lon_column ?N (rows df)
        (start_batch, init_geocoder, w) = (Inr b, g', w')"
    and len: "length (results b) = ?N"
    and coords: "\<forall>i<?N. latitude (heap w' (results b ! i)) = the ((rows df ! i) lat_column)
            \<and> longitude (heap w' (results b ! i)) = the ((rows df ! i) lon_column)"
    by auto
  from len assms(2) have ne: "results b \<noteq> []"
    by auto
  have tab: "concat_axis1 df
           \<lparr>columns = [''city'', ''state'', ''country'', ''country_code'', ''postcode'',
                       ''display_name'', ''status''],
            rows = map (\<lambda>r. place_cells (heap w' r)) (results b)\<rparr>
         = joined df (map (heap w') (results b)) ?N"
    using concat_snapshot [OF len, of df w'] by (simp add: iloc_upto_def)
  let ?rep = "\<lparr>output_df = joined df (map (heap w') (results b)) ?N,
               successful = length (filter (\<lambda>r. status (heap w' r) = ''success'') (results b)),
               total = ?N, hits_saved = cache_hits g'\<rparr>"
  from run ne tab have "process_geocoding rnd net df lat_column lon_column w = (Inr ?rep, w')"
    by (simp add: process_geocoding_def drop_DataFrame)
  moreover have "length (rows (output_df ?rep)) = ?N"
    using len by (simp add: joined_def)
  ultimately show ?thesis
    using len coords by (intro exI [of _ ?rep] exI [of _ "results b"] exI [of _ w']) simp
qed

text \<open>
  C6. For a table with at least one row, \<open>process_csv\<close> and \<open>process_geocoding\<close> give one
  output row per input row, in the order of the input, whatever the status of each
  result (\<open>process_csv_rows_in_order\<close>, \<open>process_geocoding_rows_in_order\<close>). For a table
  with a header and no rows the output should have no rows either, but both raise
  \<open>KeyError\<close>: the frame built from the empty list of results has no columns, so
  dropping \<open>latitude\<close> and \<open>longitude\<close> from it fails. In \<open>process_geocoding\<close> this
  happens before the statistics, which do provide for a total of zero rows.
\<close>

theorem empty_batch_raises:
  "process_csv rnd net \<lparr>columns = [''latitude'', ''longitude''], rows = []\<rparr>
      ''latitude'' ''longitude'' (g, w)
     = (Inl (KeyError [''latitude'', ''longitude'']), g, w)
   \<and> process_geocoding rnd net \<lparr>columns = [''latitude'', ''longitude''], rows = []\<rparr>
      ''latitude'' ''longitude'' w
     = (Inl (KeyError [''latitude'', ''longitude'']), w)"
  by (simp add: process_csv_def process_geocoding_def start_batch_def drop_DataFrame_empty)

theorem empty_batch_raises_witness:
  "process_csv (\<lambda>x::int. (x + 50) div 100) (\<lambda>_ _ _. RequestException ''timed out'')
      \<lparr>columns = [''latitude'', ''longitude''], rows = []\<rparr>
      ''latitude'' ''longitude'' (init_geocoder, fresh_world 0)
     = (Inl (KeyError [''latitude'', ''longitude'']), init_geocoder, fresh_world 0)
   \<and> process_geocoding (\<lambda>x::int. (x + 50) div 100) (\<lambda>_ _ _. RequestException ''timed out'')
      \<lparr>columns = [''latitude'', ''longitude''], rows = []\<rparr>
      ''latitude'' ''longitude'' (fresh_world 0)
     = (Inl (KeyError [''latitude'', ''longitude'']), fresh_world 0)"
  by (rule empty_batch_raises)

section \<open>Looking up the coordinate columns\<close>

lemma column_map_foldl_None:
  "foldl (\<lambda>m col. m(lower col \<mapsto> col)) m cols k = None
     \<longleftrightarrow> m k = None \<and> (\<forall>c\<in>set cols. lower c \<noteq> k)"
  by (induction cols rule: rev_induct) auto

lemma column_map_foldl_Some:
  "foldl (\<lambda>m col. m(lower col \<mapsto> col)) m cols k = Some c
     \<Longrightarrow> m k = Some c \<or> (c \<in> set cols \<and> lower c = k)"
  by (induction cols rule: rev_induct) (auto split: if_splits)

lemma column_map_None:
  "column_map lower cols k = None \<longleftrightarrow> (\<forall>c\<in>set cols. lower c \<noteq> k)"
  by (simp add: column_map_def column_map_foldl_None)

lemma column_map_Some:
  "column_map lower cols k = Some c \<Longrightarrow> c \<in> set cols \<and> lower c = k"
  using column_map_foldl_Some [of lower Map.empty cols k c] by (simp add: column_map_def)

lemma main_found:
  assumes "\<exists>a\<in>set (columns df). lower a = lower lat_column"
    and "\<exists>b\<in>set (columns df). lower b = lower lon_column"
  shows "\<exists>a b. a \<in> set (columns df) \<and> lower a = lower lat_column
      \<and> b \<in> set (columns df) \<and> lower b = lower lon_column
      \<and> main lower rnd net df lat_column lon_column button w =
          (if button
           then (Geocoded a b (fst (process_geocoding rnd net df a b w)),
                 snd (process_geocoding rnd net df a b w))
           else (ColumnsFound a b, w))"
proof -
  from assms(1) have "column_map lower (columns df) (lower lat_column) \<noteq> None"
    by (simp add: column_map_None)
  then obtain a where a: "column_map lower (columns df) (lower lat_column) = Some a"
    by blast
  from assms(2) have "column_map lower (columns df) (lower lon_column) \<noteq> None"
    by (simp add: column_map_None)
  then obtain b where b: "column_map lower (columns df) (lower lon_column) = Some b"
    by blast
  have "main lower rnd net df lat_column lon_column button w =
          (if button
           then (Geocoded a b (fst (process_geocoding rnd net df a b w)),
                 snd (process_geocoding rnd net df a b w))
           else (ColumnsFound a b, w))"
    using a b by (simp add: main_def split: prod.splits)
  with column_map_Some [OF a] column_map_Some [OF b] show ?thesis
    by blast
qed

lemma main_not_found:
  assumes "\<not> ((\<exists>a\<in>set (columns df). lower a = lower lat_column)
      \<and> (\<exists>b\<in>set (columns df). lower b = lower lon_column))"
  shows "main lower rnd net df lat_column lon_column button w =
      (ColumnsNotFound lat_column lon_column
         (''Available columns: '' @ join '', '' (columns df)), w)"
proof -
  from assms have "column_map lower (columns df) (lower lat_column) = None
      \<or> column_map lower (columns df) (lower lon_column) = None"
    by (auto simp add: column_map_None)
  then show ?thesis
    by (auto simp add: main_def split: option.splits)
qed

lemma process_csv_loop_error:
  "process_csv_loop rnd net latc lonc rs (acc, g, w) = (Inl e, g', w') \<Longrightarrow> \<exists>l. e = KeyError l"
proof (induction rs arbitrary: acc g w)
  case Nil
  then show ?case by simp
next
  case (Cons row rs)
  obtain refs cnt where acc: "acc = (refs, cnt)" by (cases acc)
  show ?case
  proof (cases "row_get row latc")
    case (Inl e1)
    with Cons.prems acc show ?thesis
      by (auto simp add: row_get_def split: option.splits)
  next
    case lat: (Inr lat)
    show ?thesis
    proof (cases "row_get row lonc")
      case (Inl e1)
      with Cons.prems acc lat show ?thesis
        by (auto simp add: row_get_def split: option.splits)
    next
      case lon: (Inr lon)
      obtain r g1 w1 where call: "reverse_geocode rnd net lat lon 3 (g, w) = (r, g1, w1)"
        by (metis prod_cases3)
      from Cons.prems acc lat lon call obtain acc1 where
        "process_csv_loop rnd net latc lonc rs (acc1, g1, w1) = (Inl e, g', w')"
        by simp
      from Cons.IH [OF this] show ?thesis .
    qed
  qed
qed

lemma drop_lat_lon_error: "drop_lat_lon d = Inl e \<Longrightarrow> \<exists>l. e = KeyError l"
  by (auto simp add: drop_lat_lon_def Let_def split: if_splits)

lemma process_csv_passes_validation:
  assumes "lat_column \<in> set (columns df)" and "lon_column \<in> set (columns df)"
  shows "fst (process_csv rnd net df lat_column lon_column (g, w)) \<noteq> Inl (ValueError msg)"
proof -
  obtain res g1 w1 where loop:
    "process_csv_loop rnd net lat_column lon_column (rows df) (([], 0), g, w) = (res, g1, w1)"
    by (metis prod_cases3)
  show ?thesis
  proof (cases res)
    case (Inl e)
    with loop process_csv_loop_error [of rnd net lat_column lon_column "rows df" "([], 0)" g w e g1 w1]
    obtain l where "e = KeyError l" by blast
    with assms loop Inl show ?thesis
      by (simp add: process_csv_def)
  next
    case (Inr acc)
    obtain refs n where acc: "acc = (refs, n)" by (cases acc)
    show ?thesis
    proof (cases "drop_lat_lon (DataFrame refs w1)")
      case (Inl e)
      then obtain l where "e = KeyError l"
        by (auto dest: drop_lat_lon_error)
      with assms loop Inr acc Inl show ?thesis
        by (simp add: process_csv_def)
    next
      case d: (Inr d)
      with assms loop Inr acc show ?thesis
        by (simp add: process_csv_def)
    qed
  qed
qed

lemma process_csv_fails_validation:
  assumes "lat_column \<notin> set (columns df) \<or> lon_column \<notin> set (columns df)"
  shows "process_csv rnd net df lat_column lon_column (g, w) =
      (Inl (ValueError (''Columns '' @ quoted lat_column @ '' and/or ''
              @ quoted lon_column @ '' not found in CSV'')), g, w)"
  using assms by (auto simp add: process_csv_def)

lemma ascii_lower_examples:
  "ascii_lower ''Latitude'' = ''latitude''" "ascii_lower ''LONGITUDE'' = ''longitude''"
  "ascii_lower ''latitude'' = ''latitude''" "ascii_lower ''longitude'' = ''longitude''"
  "ascii_lower ''lat'' = ''lat''" "ascii_lower ''lon'' = ''lon''"
  "ascii_lower ''name'' = ''name''"
  by code_simp+

text \<open>
  C7, as the code has it. \<open>main\<close> finds the two columns exactly when, for each of the two
  names, some column of the table equals the name once both are lower-cased; it then
  goes on with two such columns of the table (to \<open>process_geocoding\<close> when the button was
  pressed). Otherwise it reports the two names and the line of the available columns and
  returns with the world as it was: no request, no sleep. \<open>process_csv\<close> takes the two
  names as they are written: when both are columns of the table it does not raise
  \<open>ValueError\<close>, and for a table with rows that have these cells it returns the joined
  table; when either is not a column it raises \<open>ValueError\<close> with a message that names
  the two requested columns, with the instance and the world as they were.
\<close>

theorem column_lookup_of_main_and_process_csv:
  "(if (\<exists>a\<in>set (columns df). lower a = lower lat_column)
       \<and> (\<exists>b\<in>set (columns df). lower b = lower lon_column)
    then (\<exists>a b. a \<in> set (columns df) \<and> lower a = lower lat_column
            \<and> b \<in> set (columns df) \<and> lower b = lower lon_column
            \<and> main lower rnd net df lat_column lon_column button w =
                (if button
                 then (Geocoded a b (fst (process_geocoding rnd net df a b w)),
                       snd (process_geocoding rnd net df a b w))
                 else (ColumnsFound a b, w)))
    else main lower rnd net df lat_column lon_column button w =
           (ColumnsNotFound lat_column lon_column
              (''Available columns: '' @ join '', '' (columns df)), w))
   \<and> (if lat_column \<in> set (columns df) \<and> lon_column \<in> set (columns df)
      then (\<forall>msg. fst (process_csv rnd net df lat_column lon_column (g, w))
                    \<noteq> Inl (ValueError msg))
           \<and> ((\<forall>row\<in>set (rows df). row lat_column \<noteq> None \<and> row lon_column \<noteq> None)
                \<and> rows df \<noteq> [] \<longrightarrow>
               (\<exists>refs n g' w'.
                  process_csv rnd net df lat_column lon_column (g, w)
                    = (Inr ((n, length (rows df)),
                            joined df (map (heap w') refs) (length (rows df))), g', w')
                  \<and> length refs = length (rows df)))
      else process_csv rnd net df lat_column lon_column (g, w) =
             (Inl (ValueError (''Columns '' @ quoted lat_column @ '' and/or ''
                     @ quoted lon_column @ '' not found in CSV'')), g, w))"
proof -
  have ui: "if (\<exists>a\<in>set (columns df). lower a = lower lat_column)
       \<and> (\<exists>b\<in>set (columns df). lower b = lower lon_column)
    then (\<exists>a b. a \<in> set (columns df) \<and> lower a = lower lat_column
            \<and> b \<in> set (columns df) \<and> lower b = lower lon_column
            \<and> main lower rnd net df lat_column lon_column button w =
                (if button
                 then (Geocoded a b (fst (process_geocoding rnd net df a b w)),
                       snd (process_geocoding rnd net df a b w))
                 else (ColumnsFound a b, w)))
    else main lower rnd net df lat_column lon_column button w =
           (ColumnsNotFound lat_column lon_column
              (''Available columns: '' @ join '', '' (columns df)), w)"
  proof (cases "(\<exists>a\<in>set (columns df). lower a = lower lat_column)
       \<and> (\<exists>b\<in>set (columns df). lower b = lower lon_column)")
    case True
    then have "\<exists>a\<in>set (columns df). lower a = lower lat_column"
      and "\<exists>b\<in>set (columns df). lower b = lower lon_column"
      by simp_all
    then show ?thesis
      unfolding if_P [OF True] by (rule main_found)
  next
    case False
    show ?thesis
      unfolding if_not_P [OF False] by (rule main_not_found [OF False])
  qed
  have lib: "if lat_column \<in> set (columns df) \<and> lon_column \<in> set (columns df)
      then (\<forall>msg. fst (process_csv rnd net df lat_column lon_column (g, w))
                    \<noteq> Inl (ValueError msg))
           \<and> ((\<forall>row\<in>set (rows df). row lat_column \<noteq> None \<and> row lon_column \<noteq> None)
                \<and> rows df \<noteq> [] \<longrightarrow>
               (\<exists>refs n g' w'.
                  process_csv rnd net df lat_column lon_column (g, w)
                    = (Inr ((n, length (rows df)),
                            joined df (map (heap w') refs) (length (rows df))), g', w')
                  \<and> length refs = length (rows df)))
      else process_csv rnd net df lat_column lon_column (g, w) =
             (Inl (ValueError (''Columns '' @ quoted lat_column @ '' and/or ''
                     @ quoted lon_column @ '' not found in CSV'')), g, w)"
  proof (cases "lat_column \<in> set (columns df) \<and> lon_column \<in> set (columns df)")
    case True
    then have lat: "lat_column \<in> set (columns df)" and lon: "lon_column \<in> set (columns df)"
      by simp_all
    have "\<forall>msg. fst (process_csv rnd net df lat_column lon_column (g, w))
                    \<noteq> Inl (ValueError msg)"
      using process_csv_passes_validation [OF lat lon] by blast
    moreover have "(\<forall>row\<in>set (rows df). row lat_column \<noteq> None \<and> row lon_column \<noteq> None)
                \<and> rows df \<noteq> [] \<longrightarrow>
               (\<exists>refs n g' w'.
                  process_csv rnd net df lat_column lon_column (g, w)
                    = (Inr ((n, length (rows df)),
                            joined df (map (heap w') refs) (length (rows df))), g', w')
                  \<and> length refs = length (rows df))"
      using process_csv_rows_in_order [OF lat lon, of rnd net g w] by blast
    ultimately show ?thesis
      unfolding if_P [OF True] by (rule conjI)
  next
    case False
    then have "lat_column \<notin> set (columns df) \<or> lon_column \<notin> set (columns df)"
      by simp
    then show ?thesis
      unfolding if_not_P [OF False] by (rule process_csv_fails_validation)
  qed
  from ui lib show ?thesis by (rule conjI)
qed

theorem column_lookup_of_main_and_process_csv_witness:
  "main ascii_lower (\<lambda>x::int. (x + 50) div 100) (\<lambda>_ _ _. RequestException ''timed out'')
       \<lparr>columns = [''name'', ''Latitude'', ''LONGITUDE''], rows = []\<rparr>
       ''latitude'' ''longitude'' False (fresh_world 0)
     = (ColumnsFound ''Latitude'' ''LONGITUDE'', fresh_world 0)
   \<and> process_csv (\<lambda>x::int. (x + 50) div 100) (\<lambda>_ _ _. RequestException ''timed out'')
       \<lparr>columns = [''name'', ''Latitude'', ''LONGITUDE''], rows = []\<rparr>
       ''latitude'' ''longitude'' (init_geocoder, fresh_world 0)
     = (Inl (ValueError (''Columns '' @ quoted ''latitude'' @ '' and/or ''
               @ quoted ''longitude'' @ '' not found in CSV'')), init_geocoder, fresh_world 0)
   \<and> main ascii_lower (\<lambda>x::int. (x + 50) div 100) (\<lambda>_ _ _. RequestException ''timed out'')
       \<lparr>columns = [''name'', ''Latitude'', ''LONGITUDE''], rows = []\<rparr>
       ''lat'' ''lon'' True (fresh_world 0)
     = (ColumnsNotFound ''lat'' ''lon'' ''Available columns: name, Latitude, LONGITUDE'',
        fresh_world 0)"
proof -
  let ?rnd = "\<lambda>x::int. (x + 50) div 100"
  let ?net = "\<lambda>(_ :: int event list) (_ :: int) (_ :: int). RequestException ''timed out''"
  let ?df = "\<lparr>columns = [''name'', ''Latitude'', ''LONGITUDE''], rows = [] :: int row list\<rparr>"
  note T = column_lookup_of_main_and_process_csv
    [where df = ?df and lower = ascii_lower and lat_column = "''latitude''"
       and lon_column = "''longitude''" and rnd = ?rnd and net = ?net and button = False
       and w = "fresh_world 0" and g = init_geocoder]
  note U = column_lookup_of_main_and_process_csv
    [where df = ?df and lower = ascii_lower and lat_column = "''lat''"
       and lon_column = "''lon''" and rnd = ?rnd and net = ?net and button = True
       and w = "fresh_world 0" and g = init_geocoder]
  have there: "(\<exists>a\<in>set (columns ?df). ascii_lower a = ascii_lower ''latitude'')
      \<and> (\<exists>b\<in>set (columns ?df). ascii_lower b = ascii_lower ''longitude'')"
    by (simp add: ascii_lower_examples)
  from T [THEN conjunct1, unfolded if_P [OF there]]
  obtain a b where a: "a \<in> set (columns ?df)" "ascii_lower a = ascii_lower ''latitude''"
    and b: "b \<in> set (columns ?df)" "ascii_lower b = ascii_lower ''longitude''"
    and m: "main ascii_lower ?rnd ?net ?df ''latitude'' ''longitude'' False (fresh_world 0) =
      (if False
       then (Geocoded a b (fst (process_geocoding ?rnd ?net ?df a b (fresh_world 0))),
             snd (process_geocoding ?rnd ?net ?df a b (fresh_world 0)))
       else (ColumnsFound a b, fresh_world 0))"
    by blast
  from a have "a = ''Latitude''"
    by (auto simp add: ascii_lower_examples)
  moreover from b have "b = ''LONGITUDE''"
    by (auto simp add: ascii_lower_examples)
  ultimately have found:
    "main ascii_lower ?rnd ?net ?df ''latitude'' ''longitude'' False (fresh_world 0)
       = (ColumnsFound ''Latitude'' ''LONGITUDE'', fresh_world 0)"
    using m by (simp only: if_False)
  have exact: "\<not> (''latitude'' \<in> set (columns ?df) \<and> ''longitude'' \<in> set (columns ?df))"
    by simp
  note raised = T [THEN conjunct2, unfolded if_not_P [OF exact]]
  have absent: "\<not> ((\<exists>a\<in>set (columns ?df). ascii_lower a = ascii_lower ''lat'')
      \<and> (\<exists>b\<in>set (columns ?df). ascii_lower b = ascii_lower ''lon''))"
    by (simp add: ascii_lower_examples)
  have listing: "''Available columns: '' @ join '', '' (columns ?df)
      = ''Available columns: name, Latitude, LONGITUDE''"
    by simp
  note missing = U [THEN conjunct1, unfolded if_not_P [OF absent] listing]
  from found raised missing show ?thesis
    by (intro conjI)
qed

text \<open>
  A table whose columns are \<open>Latitude\<close> and \<open>Longitude\<close>, asked for \<open>latitude\<close> and
  \<open>longitude\<close>: \<open>process_csv\<close> raises although the names agree up to case, and its
  message does not list the columns of the table.
\<close>

theorem process_csv_lookup_counterexample:
  "process_csv (\<lambda>x::int. (x + 50) div 100) (\<lambda>_ _ _. RequestException ''timed out'')
       \<lparr>columns = [''Latitude'', ''Longitude''],
        rows = [[''Latitude'' \<mapsto> 48856600, ''Longitude'' \<mapsto> 2352200]]\<rparr>
       ''latitude'' ''longitude'' (init_geocoder, fresh_world 0)
     = (Inl (ValueError (''Columns '' @ quoted ''latitude'' @ '' and/or ''
               @ quoted ''longitude'' @ '' not found in CSV'')), init_geocoder, fresh_world 0)
   \<and> ascii_lower ''Latitude'' = ascii_lower ''latitude''
   \<and> ascii_lower ''Longitude'' = ascii_lower ''longitude''"
proof -
  have "ascii_lower ''Latitude'' = ascii_lower ''latitude''"
    "ascii_lower ''Longitude'' = ascii_lower ''longitude''"
    by code_simp+
  then show ?thesis
    by (simp add: process_csv_def)
qed

end
